theory Spec2Isabelle
  imports Main "HOL-Library.Char_ord" "HOL-Library.List_Lexorder"
begin

section \<open>Bytes, strings and errors\<close>

text \<open>
  Go strings and byte slices are sequences of bytes; both are modelled as \<open>string\<close>
  (a list of \<open>char\<close>, each one byte).
\<close>

abbreviation dquote :: char where "dquote \<equiv> CHR 0x22"
abbreviation backslash :: char where "backslash \<equiv> CHR 0x5C"
abbreviation CRLF :: string where "CRLF \<equiv> [CHR 0x0D, CHR 0x0A]"

text \<open>
  Go's \<open>error\<close> values. \<open>EOF\<close> is \<open>io.EOF\<close>; \<open>IOError\<close> is any other failure
  of a reader, seeker or writer; \<open>ErrClosedPart\<close> is the multipart writer's
  "can't write to finished part"; the remaining kinds are those of section 7 of the
  specification.
\<close>

datatype error =
    EOF
  | IOError string
  | ErrClosedPart
  | ErrShortWrite
  | RequestError string
  | TransportError string
  | APIError nat string
  | DecodeError string

section \<open>DocumentDownload\<close>

text \<open>The struct \<open>DocumentDownload\<close> (document.go, lines 70-73).\<close>

record DocumentDownload =
  Size :: nat
  Content :: string

text \<open>
  \<open>(*DocumentDownload).Write\<close> (lines 75-80): the receiver is mutated, so the model
  returns the pair \<open>(n, err)\<close> together with the updated receiver.
\<close>

definition Write :: "DocumentDownload \<Rightarrow> string \<Rightarrow> (nat \<times> error option) \<times> DocumentDownload" where
  "Write d bs = ((length bs, None), d\<lparr>Content := bs, Size := length bs\<rparr>)"

text \<open>A sequence of \<open>Write\<close> calls on one receiver, in order.\<close>

fun Writes :: "DocumentDownload \<Rightarrow> string list \<Rightarrow> DocumentDownload" where
  "Writes d [] = d"
| "Writes d (bs # rest) = Writes (snd (Write d bs)) rest"

section \<open>Quote escaping\<close>

text \<open>
  \<open>strings.NewReplacer\<close> with single-byte old strings replaces byte by byte; where a
  byte is listed twice the earlier pair wins, which is what \<open>map_of\<close> does.
\<close>

definition Replace :: "(char \<times> string) list \<Rightarrow> string \<Rightarrow> string" where
  "Replace r s = concat (map (\<lambda>b. case map_of r b of Some new \<Rightarrow> new | None \<Rightarrow> [b]) s)"

text \<open>\<open>quoteEscaper\<close> and \<open>escapeQuotes\<close> (lines 82-86).\<close>

definition quoteEscaper :: "(char \<times> string) list" where
  "quoteEscaper = [(backslash, [backslash, backslash]), (dquote, [backslash, dquote])]"

definition escapeQuotes :: "string \<Rightarrow> string" where
  "escapeQuotes s = Replace quoteEscaper s"

text \<open>
  The value of the \<open>Content-Disposition\<close> header that \<open>createFormFile\<close> formats
  (lines 108-109): \<open>form-data; name="%s"; filename="%s"\<close> with both arguments escaped.
\<close>

definition formFileDisposition :: "string \<Rightarrow> string \<Rightarrow> string" where
  "formFileDisposition fieldname filename =
     ''form-data; name='' @ [dquote] @ escapeQuotes fieldname @ [dquote] @
     ''; filename='' @ [dquote] @ escapeQuotes filename @ [dquote]"

text \<open>
  The decoding side, following the specification's words ("decoding the header must
  recover the original string exactly"): a backslash makes the next byte literal.
  \<open>unescapeQuotes\<close> undoes the escaping of a whole string; \<open>readQuoted\<close> reads a
  quoted string up to its closing, unescaped double quote and returns the decoded value
  with the rest of the input.
\<close>

fun unescapeQuotes :: "string \<Rightarrow> string" where
  "unescapeQuotes [] = []"
| "unescapeQuotes [c] = [c]"
| "unescapeQuotes (c # d # cs) =
     (if c = backslash then d # unescapeQuotes cs else c # unescapeQuotes (d # cs))"

fun readQuoted :: "string \<Rightarrow> (string \<times> string) option" where
  "readQuoted [] = None"
| "readQuoted [c] = (if c = dquote then Some ([], []) else None)"
| "readQuoted (c # d # cs) =
     (if c = dquote then Some ([], d # cs)
      else if c = backslash then map_option (\<lambda>(v, r). (d # v, r)) (readQuoted cs)
      else map_option (\<lambda>(v, r). (c # v, r)) (readQuoted (d # cs)))"

fun stripPrefix :: "string \<Rightarrow> string \<Rightarrow> string option" where
  "stripPrefix [] s = Some s"
| "stripPrefix (p # ps) [] = None"
| "stripPrefix (p # ps) (c # cs) = (if p = c then stripPrefix ps cs else None)"

definition parseDisposition :: "string \<Rightarrow> (string \<times> string) option" where
  "parseDisposition h =
     (case stripPrefix (''form-data; name='' @ [dquote]) h of
        None \<Rightarrow> None
      | Some r1 \<Rightarrow>
          (case readQuoted r1 of
             None \<Rightarrow> None
           | Some (name, r2) \<Rightarrow>
               (case stripPrefix (''; filename='' @ [dquote]) r2 of
                  None \<Rightarrow> None
                | Some r3 \<Rightarrow>
                    (case readQuoted r3 of
                       None \<Rightarrow> None
                     | Some (filename, r4) \<Rightarrow>
                         if r4 = [] then Some (name, filename) else None))))"

section \<open>Seekable byte streams\<close>

text \<open>
  \<open>DocumentRequest.File\<close> is an \<open>io.ReadSeeker\<close>. The model is an in-memory stream
  (the behaviour of \<open>bytes.Reader\<close>, which the tests pass) with scripted faults: each
  \<open>Read\<close> call consumes the head of \<open>rfaults\<close> and fails with \<open>IOError e\<close> when it
  is \<open>Some e\<close>; each \<open>Seek\<close> call does the same with \<open>sfaults\<close>. An empty script
  is a stream that never fails.
\<close>

record stream =
  content :: string
  pos :: nat
  rfaults :: "string option list"
  sfaults :: "string option list"

text \<open>
  \<open>Read f n\<close> is \<open>f.Read(buf)\<close> with \<open>len(buf) = n\<close>: the bytes read and the error,
  with the stream afterwards. At the end of the content it returns \<open>(0, io.EOF)\<close>.
\<close>

definition Read :: "stream \<Rightarrow> nat \<Rightarrow> (string \<times> error option) \<times> stream" where
  "Read f n =
     (let f' = f\<lparr>rfaults := tl (rfaults f)\<rparr> in
      case rfaults f of
        Some e # _ \<Rightarrow> (([], Some (IOError e)), f')
      | _ \<Rightarrow>
          if length (content f) \<le> pos f then (([], Some EOF), f')
          else let d = take n (drop (pos f) (content f))
               in ((d, None), f'\<lparr>pos := pos f + length d\<rparr>))"

text \<open>
  \<open>Seek f offset whence\<close>, with \<open>whence\<close> 0, 1, 2 for \<open>io.SeekStart\<close>,
  \<open>io.SeekCurrent\<close>, \<open>io.SeekEnd\<close>.
\<close>

definition Seek :: "stream \<Rightarrow> int \<Rightarrow> nat \<Rightarrow> (int \<times> error option) \<times> stream" where
  "Seek f offset whence =
     (let f' = f\<lparr>sfaults := tl (sfaults f)\<rparr> in
      case sfaults f of
        Some e # _ \<Rightarrow> ((0, Some (IOError e)), f')
      | _ \<Rightarrow>
          if 2 < whence then ((0, Some (IOError ''invalid whence'')), f')
          else
            let abs = (if whence = 0 then offset
                       else if whence = 1 then int (pos f) + offset
                       else int (length (content f)) + offset)
            in if abs < 0 then ((0, Some (IOError ''negative position'')), f')
               else ((abs, None), f'\<lparr>pos := nat abs\<rparr>))"

section \<open>The request body buffer and the multipart writer\<close>

text \<open>
  The buffer that receives the encoded body. \<open>bytes.Buffer.Write\<close> itself never returns
  an error, which is the empty script \<open>wfaults = []\<close>; a scripted fault stands for a
  failing \<open>io.Writer\<close>, so that the error branches of the encoder can be taken.
\<close>

record sink =
  data :: string
  wfaults :: "string option list"

definition sinkWrite :: "sink \<Rightarrow> string \<Rightarrow> (nat \<times> error option) \<times> sink" where
  "sinkWrite k d =
     (case wfaults k of
        Some e # fs \<Rightarrow> ((0, Some (IOError e)), k\<lparr>wfaults := fs\<rparr>)
      | _ \<Rightarrow> ((length d, None), k\<lparr>data := data k @ d, wfaults := tl (wfaults k)\<rparr>))"

text \<open>
  \<open>mime/multipart.Writer\<close>: the underlying writer, the boundary and the part being
  written, which remembers the error of its last write (\<open>we\<close>).
\<close>

record part =
  closed :: bool
  we :: "error option"

record mwriter =
  mw_w :: sink
  mw_boundary :: string
  mw_lastpart :: "part option"

definition NewWriter :: "sink \<Rightarrow> string \<Rightarrow> mwriter" where
  "NewWriter k b = \<lparr>mw_w = k, mw_boundary = b, mw_lastpart = None\<rparr>"

text \<open>
  \<open>textproto.MIMEHeader.Set\<close> and \<open>http.Header.Set\<close> on a header kept as an association
  list: the value of the key is replaced, or the key is added. Every key the source
  passes is already in canonical form.
\<close>

fun hset :: "string \<Rightarrow> string \<Rightarrow> (string \<times> string) list \<Rightarrow> (string \<times> string) list" where
  "hset k v [] = [(k, v)]"
| "hset k v ((k', v') # h) = (if k = k' then (k, v) # h else (k', v') # hset k v h)"

text \<open>
  \<open>part.Write\<close> on the part a \<open>CreatePart\<close> call has just returned, which is the
  writer's current part everywhere in the source.
\<close>

definition partWrite :: "mwriter \<Rightarrow> string \<Rightarrow> (nat \<times> error option) \<times> mwriter" where
  "partWrite m d =
     (case mw_lastpart m of
        None \<Rightarrow> ((0, Some ErrClosedPart), m)
      | Some p \<Rightarrow>
          if closed p then ((0, Some ErrClosedPart), m)
          else
            (case sinkWrite (mw_w m) d of
               ((n, err), k') \<Rightarrow>
                 ((n, err),
                  m\<lparr>mw_w := k',
                    mw_lastpart := Some (if err \<noteq> None then p\<lparr>we := err\<rparr> else p)\<rparr>)))"

text \<open>
  \<open>Writer.CreatePart\<close>: close the previous part and return its stored error if it has
  one; otherwise write the delimiter line (preceded by CRLF unless this is the first
  part), the header lines in the order of their keys, and an empty line.
\<close>

definition partHeader :: "(string \<times> string) list \<Rightarrow> string" where
  "partHeader header = concat (map (\<lambda>(k, v). k @ '': '' @ v @ CRLF) (sort_key fst header))"

definition CreatePart :: "mwriter \<Rightarrow> (string \<times> string) list \<Rightarrow> error option \<times> mwriter" where
  "CreatePart m header =
     (let closedLast = map_option (\<lambda>p. p\<lparr>closed := True\<rparr>) (mw_lastpart m) in
      case (case mw_lastpart m of None \<Rightarrow> None | Some p \<Rightarrow> we p) of
        Some e \<Rightarrow> (Some e, m\<lparr>mw_lastpart := closedLast\<rparr>)
      | None \<Rightarrow>
          let b = (if mw_lastpart m \<noteq> None then CRLF else []) @
                  ''--'' @ mw_boundary m @ CRLF @ partHeader header @ CRLF
          in case sinkWrite (mw_w m) b of
               ((n, Some e), k') \<Rightarrow> (Some e, m\<lparr>mw_w := k', mw_lastpart := closedLast\<rparr>)
             | ((n, None), k') \<Rightarrow>
                 (None, m\<lparr>mw_w := k', mw_lastpart := Some \<lparr>closed = False, we = None\<rparr>\<rparr>))"

text \<open>\<open>Writer.CreateFormField\<close> and \<open>Writer.WriteField\<close>.\<close>

definition CreateFormField :: "mwriter \<Rightarrow> string \<Rightarrow> error option \<times> mwriter" where
  "CreateFormField m fieldname =
     CreatePart m
       (hset ''Content-Disposition''
          (''form-data; name='' @ [dquote] @ escapeQuotes fieldname @ [dquote]) [])"

definition WriteField :: "mwriter \<Rightarrow> string \<Rightarrow> string \<Rightarrow> error option \<times> mwriter" where
  "WriteField m fieldname val =
     (case CreateFormField m fieldname of
        (Some e, m') \<Rightarrow> (Some e, m')
      | (None, m') \<Rightarrow> (case partWrite m' val of ((n, err), m'') \<Rightarrow> (err, m'')))"

text \<open>\<open>Writer.Close\<close>: finish the last part and write the closing delimiter.\<close>

definition Close :: "mwriter \<Rightarrow> error option \<times> mwriter" where
  "Close m =
     (case (case mw_lastpart m of None \<Rightarrow> None | Some p \<Rightarrow> we p) of
        Some e \<Rightarrow> (Some e, m\<lparr>mw_lastpart := map_option (\<lambda>p. p\<lparr>closed := True\<rparr>) (mw_lastpart m)\<rparr>)
      | None \<Rightarrow>
          (case sinkWrite (mw_w m) (CRLF @ ''--'' @ mw_boundary m @ ''--'' @ CRLF) of
             ((n, err), k') \<Rightarrow> (err, m\<lparr>mw_w := k', mw_lastpart := None\<rparr>)))"

text \<open>
  \<open>Writer.FormDataContentType\<close>: the boundary is quoted when it contains one of the
  bytes \<open>()<>@,;:\"/[]?=\<close> or a space.
\<close>

definition FormDataContentType :: "mwriter \<Rightarrow> string" where
  "FormDataContentType m =
     (let b = mw_boundary m;
          b' = (if list_ex (\<lambda>c. List.member (''()<>@,;:'' @ [backslash, dquote] @ ''/[]?= '') c) b
                then [dquote] @ b @ [dquote] else b)
      in ''multipart/form-data; boundary='' @ b')"

text \<open>
  \<open>io.Copy(part, file)\<close>: the generic copy loop with its 32 KiB buffer. \<open>written\<close> is
  the running byte count.
\<close>

function copyBuffer :: "mwriter \<Rightarrow> stream \<Rightarrow> nat \<Rightarrow> (nat \<times> error option) \<times> mwriter \<times> stream" where
  "copyBuffer dst src written =
     (case Read src 32768 of
        ((d, er), src') \<Rightarrow>
          if d \<noteq> [] then
            (case partWrite dst d of
               ((nw, ew), dst') \<Rightarrow>
                 (case ew of
                    Some e \<Rightarrow> ((written + nw, Some e), dst', src')
                  | None \<Rightarrow>
                      if length d \<noteq> nw then ((written + nw, Some ErrShortWrite), dst', src')
                      else
                        (case er of
                           Some e \<Rightarrow> ((written + nw, if e = EOF then None else Some e), dst', src')
                         | None \<Rightarrow> copyBuffer dst' src' (written + nw))))
          else
            (case er of
               Some e \<Rightarrow> ((written, if e = EOF then None else Some e), dst, src')
             | None \<Rightarrow> copyBuffer dst src' written))"
  by pat_completeness auto
termination
proof (relation "measure (\<lambda>(dst, src, written). length (content src) - pos src)")
  show "wf (measure (\<lambda>(dst, src, written). length (content src) - pos src))"
    by simp
next
  fix dst :: mwriter and src :: stream and written :: nat
    and x and src' and d and er and y and dst' and nw and ew
  assume "(x, src') = Read src 32768" and "(d, er) = x" and "d \<noteq> []" and "er = None"
  then have "Read src 32768 = ((d, None), src')"
    by simp
  with \<open>d \<noteq> []\<close>
  show "((dst', src', written + nw), dst, src, written)
          \<in> measure (\<lambda>(dst, src, written). length (content src) - pos src)"
    by (auto simp: Read_def Let_def split: list.splits option.splits if_splits)
next
  fix dst :: mwriter and src :: stream and written :: nat
    and x and src' and d and er
  assume "(x, src') = Read src 32768" and "(d, er) = x" and "\<not> d \<noteq> []" and "er = None"
  then have "Read src 32768 = (([], None), src')"
    by simp
  then show "((dst, src', written), dst, src, written)
          \<in> measure (\<lambda>(dst, src, written). length (content src) - pos src)"
    by (auto simp: Read_def Let_def split: list.splits option.splits if_splits)
qed

definition Copy :: "mwriter \<Rightarrow> stream \<Rightarrow> (nat \<times> error option) \<times> mwriter \<times> stream" where
  "Copy dst src = copyBuffer dst src 0"

section \<open>Documents and requests\<close>

text \<open>The document types and sides that the source declares (lines 19-32).\<close>

definition DocumentTypeUnknown :: string where "DocumentTypeUnknown = ''unknown''"
definition DocumentTypePassport :: string where "DocumentTypePassport = ''passport''"
definition DocumentTypeIDCard :: string where "DocumentTypeIDCard = ''national_identity_card''"
definition DocumentTypeDrivingLicense :: string where "DocumentTypeDrivingLicense = ''driving_licence''"
definition DocumentTypeUKBRP :: string where "DocumentTypeUKBRP = ''uk_biometric_residence_permit''"
definition DocumentTypeTaxID :: string where "DocumentTypeTaxID = ''tax_id''"
definition DocumentTypeVoterID :: string where "DocumentTypeVoterID = ''voter_id''"
definition DocumentTypeBankStatement :: string where "DocumentTypeBankStatement = ''bank_statement''"
definition DocumentSideFront :: string where "DocumentSideFront = ''front''"
definition DocumentSideBack :: string where "DocumentSideBack = ''back''"

text \<open>The struct \<open>Document\<close> (lines 49-62); \<open>CreatedAt\<close> is a nullable timestamp.\<close>

record Document =
  ID :: string
  CreatedAt :: "string option"
  Href :: string
  DownloadHref :: string
  FileName :: string
  FileType :: string
  FileSize :: int
  Type :: string
  Side :: string
  IssuingCountry :: string

text \<open>The zero value of \<open>Document\<close>, which \<open>var resp Document\<close> declares.\<close>

definition zeroDocument :: Document where
  "zeroDocument =
     \<lparr>ID = [], CreatedAt = None, Href = [], DownloadHref = [], FileName = [], FileType = [],
      FileSize = 0, Type = [], Side = [], IssuingCountry = []\<rparr>"

text \<open>The struct \<open>Documents\<close> (lines 65-67): a slice of pointers, each possibly nil.\<close>

record Documents =
  Documents :: "Document option list"

text \<open>
  The struct \<open>DocumentRequest\<close> (lines 41-46), with \<open>File\<close> a stream that is present
  (a nil \<open>File\<close> is outside this model).
\<close>

record DocumentRequest =
  File :: stream
  Type :: string
  Side :: string
  IssuingCountry :: string

text \<open>What the source uses of \<open>http.Request\<close> and of the response to it.\<close>

record request =
  Method :: string
  URL :: string
  Header :: "(string \<times> string) list"
  RequestBody :: "string option"

record response =
  StatusCode :: nat
  Body :: string
  nextLink :: string

text \<open>
  A Go call either returns or panics; a nil pointer dereference is a panic.
\<close>

datatype 'a outcome = Panic string | Return 'a

text \<open>
  The methods of \<open>Client\<close> that document.go calls. Their code is not in document.go, so
  they are parameters of the operations. \<open>'net\<close> is the state of the network they act
  on. A request is a pointer and may be nil. \<open>do\<close> is \<open>c.do(ctx, req, &resp)\<close> with a
  \<open>Document\<close> target, returning the error and the target afterwards; \<open>download\<close> is
  \<open>c.download(ctx, req, &resp)\<close>, returning the blob and the error, with the target
  afterwards; \<open>fetchPage\<close> is the page fetch that the iterator performs through its
  client, giving the page's payload and its next-page link.
\<close>

record 'net client =
  newRequest :: "string \<Rightarrow> string \<Rightarrow> string option \<Rightarrow> request option \<times> error option"
  do :: "request option \<Rightarrow> Document \<Rightarrow> 'net \<Rightarrow> (error option \<times> Document) \<times> 'net"
  download :: "request option \<Rightarrow> DocumentDownload \<Rightarrow> 'net
                 \<Rightarrow> (string \<times> error option) \<times> DocumentDownload \<times> 'net"
  fetchPage :: "string \<Rightarrow> 'net \<Rightarrow> (error + string \<times> string) \<times> 'net"

text \<open>
  What an upload takes from its environment: \<open>http.DetectContentType\<close>, the random
  boundary that \<open>multipart.NewWriter\<close> draws, and the fault script of the body buffer
  (empty for the \<open>bytes.Buffer\<close> of the source).
\<close>

record env =
  DetectContentType :: "string \<Rightarrow> string"
  randomBoundary :: string
  bufferFaults :: "string option list"

section \<open>The upload encoder\<close>

text \<open>
  \<open>createFormFile\<close> (lines 92-115). The 512-byte buffer starts as zeros and the source
  passes all of it to \<open>http.DetectContentType\<close>, whatever the number of bytes read.
  The result is the error, the writer (whose current part is the one returned) and the
  stream afterwards.
\<close>

definition createFormFile ::
  "env \<Rightarrow> mwriter \<Rightarrow> string \<Rightarrow> stream \<Rightarrow> string \<Rightarrow> error option \<times> mwriter \<times> stream" where
  "createFormFile ev writer fieldname file filename =
     (case Read file 512 of
        ((d, Some e), file1) \<Rightarrow> (Some e, writer, file1)
      | ((d, None), file1) \<Rightarrow>
          let buffer = d @ replicate (512 - length d) (CHR 0x00) in
          (case Seek file1 0 0 of
             ((n, Some e), file2) \<Rightarrow> (Some e, writer, file2)
           | ((n, None), file2) \<Rightarrow>
               let h = hset ''Content-Type'' (DetectContentType ev buffer)
                         (hset ''Content-Disposition''
                            (formFileDisposition fieldname filename) [])
               in (case CreatePart writer h of (err, writer') \<Rightarrow> (err, writer', file2))))"

text \<open>
  The encoding steps of \<open>UploadDocument\<close> (lines 120-141): the error, the writer and the
  stream afterwards. The encoded body is \<open>data (mw_w writer)\<close>.
\<close>

definition uploadBody :: "env \<Rightarrow> DocumentRequest \<Rightarrow> string \<Rightarrow> error option \<times> mwriter \<times> stream" where
  "uploadBody ev dr filename =
     (let body = \<lparr>data = [], wfaults = bufferFaults ev\<rparr>;
          writer = NewWriter body (randomBoundary ev)
      in case createFormFile ev writer ''file'' (File dr) filename of
           (Some e, w1, f1) \<Rightarrow> (Some e, w1, f1)
         | (None, w1, f1) \<Rightarrow>
             (case Copy w1 f1 of
                ((n, Some e), w2, f2) \<Rightarrow> (Some e, w2, f2)
              | ((n, None), w2, f2) \<Rightarrow>
                  (case WriteField w2 ''type'' (DocumentRequest.Type dr) of
                     (Some e, w3) \<Rightarrow> (Some e, w3, f2)
                   | (None, w3) \<Rightarrow>
                       (case WriteField w3 ''side'' (DocumentRequest.Side dr) of
                          (Some e, w4) \<Rightarrow> (Some e, w4, f2)
                        | (None, w4) \<Rightarrow>
                            (case WriteField w4 ''issuing_country''
                                    (DocumentRequest.IssuingCountry dr) of
                               (Some e, w5) \<Rightarrow> (Some e, w5, f2)
                             | (None, w5) \<Rightarrow>
                                 (case Close w5 of (err, w6) \<Rightarrow> (err, w6, f2)))))))"

section \<open>The operations\<close>

text \<open>
  \<open>UploadDocument\<close> (lines 119-153). After the encoding, line 143 builds the request,
  line 144 sets its header through the pointer \<open>req\<close>, and only then line 145 looks at
  the error of line 143.
\<close>

definition UploadDocument ::
  "'net client \<Rightarrow> env \<Rightarrow> string \<Rightarrow> DocumentRequest \<Rightarrow> string \<Rightarrow> 'net
     \<Rightarrow> (Document option \<times> error option) outcome \<times> 'net" where
  "UploadDocument c ev applicantID dr filename net =
     (case uploadBody ev dr filename of
        (Some e, writer, f) \<Rightarrow> (Return (None, Some e), net)
      | (None, writer, f) \<Rightarrow>
          (case newRequest c ''POST'' (''/applicants/'' @ applicantID @ ''/documents'')
                  (Some (data (mw_w writer))) of
             (None, err) \<Rightarrow> (Panic ''nil pointer dereference'', net)
           | (Some req, err) \<Rightarrow>
               let req' = req\<lparr>Header := hset ''Content-Type'' (FormDataContentType writer)
                                            (Header req)\<rparr>
               in (case err of
                     Some e \<Rightarrow> (Return (None, Some e), net)
                   | None \<Rightarrow>
                       (case do c (Some req') zeroDocument net of
                          ((err', resp), net') \<Rightarrow> (Return (Some resp, err'), net')))))"

text \<open>\<open>GetDocument\<close> (lines 157-166).\<close>

definition GetDocument ::
  "'net client \<Rightarrow> string \<Rightarrow> string \<Rightarrow> 'net \<Rightarrow> (Document option \<times> error option) outcome \<times> 'net" where
  "GetDocument c applicantID ident net =
     (case newRequest c ''GET'' (''/applicants/'' @ applicantID @ ''/documents/'' @ ident) None of
        (req, Some e) \<Rightarrow> (Return (None, Some e), net)
      | (req, None) \<Rightarrow>
          (case do c req zeroDocument net of
             ((err', resp), net') \<Rightarrow> (Return (Some resp, err'), net')))"

text \<open>
  \<open>DownloadDocument\<close> (lines 168-176). Line 174 passes \<open>&resp\<close> to \<open>c.download\<close>, and
  the function declares no \<open>resp\<close>: the variable is free in it. The model takes it as
  the parameter \<open>resp\<close>, a \<open>DocumentDownload\<close> (the write target that document.go
  declares), and returns it as the call leaves it, next to the result and the network.
  The result itself is built from the returned \<open>blob\<close> alone (line 175).
\<close>

definition DownloadDocument ::
  "'net client \<Rightarrow> string \<Rightarrow> string \<Rightarrow> DocumentDownload \<Rightarrow> 'net
     \<Rightarrow> (DocumentDownload option \<times> error option) outcome \<times> DocumentDownload \<times> 'net" where
  "DownloadDocument c applicantID ident resp net =
     (case newRequest c ''GET''
             (''/applicants/'' @ applicantID @ ''/documents/'' @ ident @ ''/download'') None of
        (req, Some e) \<Rightarrow> (Return (None, Some e), resp, net)
      | (req, None) \<Rightarrow>
          (case download c req resp net of
             ((blob, err), resp', net') \<Rightarrow>
               (Return (Some \<lparr>Size = length blob, Content = blob\<rparr>, err), resp', net')))"

section \<open>The list iterator\<close>

text \<open>
  The values of Go's \<open>interface{}\<close> that occur: the nil interface, and an interface
  holding a \<open>*Document\<close> (itself possibly a nil pointer).
\<close>

datatype iface = Nil | DocumentPtr "Document option"

text \<open>
  Modelled from the spec: the type \<open>iter\<close> that \<open>DocumentIter\<close> embeds is declared outside
  document.go. Its fields \<open>c\<close> (here \<open>cli\<close>), \<open>nextURL\<close> and \<open>handler\<close> are the ones
  \<open>ListDocuments\<close> sets (lines 204-208); the others are the PageCursor of section 3 of
  the specification: the current page's decoded items, the current index into them and
  the last error encountered.
\<close>

record 'net iter =
  cli :: "'net client"
  nextURL :: string
  handler :: "string \<Rightarrow> error + iface list"
  pageItems :: "iface list"
  pageIndex :: nat
  lastErr :: "error option"

text \<open>
  Modelled from the spec: \<open>advance\<close> of section 4.2 (\<open>iter.Next\<close>, not in document.go).
  Failed is terminal; with unread items on the page the index advances; otherwise, with
  a next-page URL, the page is fetched and decoded, the index reset to the first item
  and the URL updated from the page's link, the result being whether the page is
  non-empty, and a failure of the fetch or of the decoding is recorded; otherwise the
  iterator is exhausted.
\<close>

definition Next :: "'net iter \<Rightarrow> 'net \<Rightarrow> (bool \<times> 'net iter) \<times> 'net" where
  "Next it net =
     (if lastErr it \<noteq> None then ((False, it), net)
      else if pageIndex it + 1 < length (pageItems it)
      then ((True, it\<lparr>pageIndex := pageIndex it + 1\<rparr>), net)
      else if nextURL it \<noteq> [] then
        (case fetchPage (cli it) (nextURL it) net of
           (Inl e, net') \<Rightarrow> ((False, it\<lparr>lastErr := Some e\<rparr>), net')
         | (Inr (payload, link), net') \<Rightarrow>
             (case handler it payload of
                Inl e \<Rightarrow> ((False, it\<lparr>lastErr := Some e\<rparr>), net')
              | Inr vs \<Rightarrow>
                  ((vs \<noteq> [], it\<lparr>pageItems := vs, pageIndex := 0, nextURL := link\<rparr>), net')))
      else ((False, it), net))"

text \<open>
  Modelled from the spec: \<open>current\<close> and \<open>err\<close> of section 4.2 (\<open>iter.Current\<close> and
  \<open>iter.Err\<close>, not in document.go). Where the specification leaves \<open>current\<close>
  undefined the model returns the nil interface.
\<close>

definition Current :: "'net iter \<Rightarrow> iface" where
  "Current it =
     (if pageIndex it < length (pageItems it) then pageItems it ! pageIndex it else Nil)"

definition Err :: "'net iter \<Rightarrow> error option" where
  "Err it = lastErr it"

text \<open>
  \<open>(*DocumentIter).Document\<close> (lines 184-186): the type assertion panics on anything
  that is not a \<open>*Document\<close>.
\<close>

definition Document :: "'net iter \<Rightarrow> Document option outcome" where
  "Document it =
     (case Current it of
        DocumentPtr p \<Rightarrow> Return p
      | Nil \<Rightarrow> Panic ''interface conversion'')"

text \<open>
  \<open>ListDocuments\<close> (lines 190-209) and the handler it builds. \<open>unmarshal\<close> is
  \<open>json.Unmarshal\<close> into a fresh \<open>Documents\<close>; the other fields of the iterator start as
  zero values.
\<close>

definition documentsHandler :: "(string \<Rightarrow> error + Documents) \<Rightarrow> string \<Rightarrow> error + iface list" where
  "documentsHandler unmarshal payload =
     (case unmarshal payload of
        Inl e \<Rightarrow> Inl e
      | Inr d \<Rightarrow> Inr (map DocumentPtr (Documents d)))"

definition ListDocuments :: "(string \<Rightarrow> error + Documents) \<Rightarrow> 'net client \<Rightarrow> string \<Rightarrow> 'net iter" where
  "ListDocuments unmarshal c applicantID =
     \<lparr>cli = c,
      nextURL = ''/applicants/'' @ applicantID @ ''/documents'',
      handler = documentsHandler unmarshal,
      pageItems = [], pageIndex = 0, lastErr = None\<rparr>"

section \<open>The transport\<close>

text \<open>
  The network: the service, as the response or transport error it gives to each request,
  and the requests issued so far.
\<close>

record net =
  server :: "request \<Rightarrow> error + response"
  sent :: "request list"

definition send :: "request \<Rightarrow> net \<Rightarrow> (error + response) \<times> net" where
  "send req n = (server n req, n\<lparr>sent := sent n @ [req]\<rparr>)"

definition is2xx :: "nat \<Rightarrow> bool" where
  "is2xx s = (200 \<le> s \<and> s < 300)"

text \<open>
  Modelled from the spec: \<open>Client.newRequest\<close> is not in document.go. Section 4.2:
  "build a request for a given method, path suffix (joined onto a configured base
  endpoint), and body".
\<close>

definition spec_newRequest ::
  "string \<Rightarrow> string \<Rightarrow> string \<Rightarrow> string option \<Rightarrow> request option \<times> error option" where
  "spec_newRequest endpoint m path b =
     (Some \<lparr>Method = m, URL = endpoint @ path, Header = [], RequestBody = b\<rparr>, None)"

text \<open>
  Modelled from the spec: \<open>Client.do\<close> is not in document.go. Section 4.2: send the
  request; "if the status code is outside the 2xx range, decode the body as a structured
  error payload and fail with an API-error kind carrying the status code and message;
  otherwise, if a target was supplied, JSON-decode the body into it". \<open>errmsg\<close> decodes
  the error payload and \<open>decode\<close> is the JSON decoding into the target. A nil request
  is not sent.
\<close>

definition spec_do ::
  "(string \<Rightarrow> string) \<Rightarrow> (string \<Rightarrow> Document \<Rightarrow> error option \<times> Document)
     \<Rightarrow> request option \<Rightarrow> Document \<Rightarrow> net \<Rightarrow> (error option \<times> Document) \<times> net" where
  "spec_do errmsg decode req v n =
     (case req of
        None \<Rightarrow> ((Some (RequestError ''nil request''), v), n)
      | Some r \<Rightarrow>
          (case send r n of
             (Inl e, n') \<Rightarrow> ((Some e, v), n')
           | (Inr resp, n') \<Rightarrow>
               if \<not> is2xx (StatusCode resp)
               then ((Some (APIError (StatusCode resp) (errmsg (Body resp))), v), n')
               else (decode (Body resp) v, n')))"

text \<open>
  Modelled from the spec: \<open>Client.download\<close> is not in document.go. Section 4.2: as
  \<open>Client.do\<close> on a failure; otherwise "for binary endpoints copy raw bytes into a
  caller-supplied sink". The sink is the \<open>DocumentDownload\<close> passed in, written with its
  \<open>Write\<close>. The specification does not say which bytes the call hands back to its caller
  on success: \<open>blobOf\<close> gives them for a response body. On a failure the sink is left as
  it was and no bytes are handed back.
\<close>

definition spec_download ::
  "(string \<Rightarrow> string) \<Rightarrow> (string \<Rightarrow> string) \<Rightarrow> request option \<Rightarrow> DocumentDownload \<Rightarrow> net
     \<Rightarrow> (string \<times> error option) \<times> DocumentDownload \<times> net" where
  "spec_download errmsg blobOf req sink n =
     (case req of
        None \<Rightarrow> (([], Some (RequestError ''nil request'')), sink, n)
      | Some r \<Rightarrow>
          (case send r n of
             (Inl e, n') \<Rightarrow> (([], Some e), sink, n')
           | (Inr resp, n') \<Rightarrow>
               if \<not> is2xx (StatusCode resp)
               then (([], Some (APIError (StatusCode resp) (errmsg (Body resp)))), sink, n')
               else ((blobOf (Body resp), None), snd (Write sink (Body resp)), n')))"

text \<open>
  Modelled from the spec: the page fetch of the iterator is not in document.go.
  Section 4.2: "issue a fetch" of the next-page URL through the transport; the
  next-page URL comes "from the new page's link metadata".
\<close>

definition spec_fetchPage ::
  "string \<Rightarrow> (string \<Rightarrow> string) \<Rightarrow> string \<Rightarrow> net \<Rightarrow> (error + string \<times> string) \<times> net" where
  "spec_fetchPage endpoint errmsg u n =
     (case send \<lparr>Method = ''GET'', URL = endpoint @ u, Header = [], RequestBody = None\<rparr> n of
        (Inl e, n') \<Rightarrow> (Inl e, n')
      | (Inr resp, n') \<Rightarrow>
          if \<not> is2xx (StatusCode resp)
          then (Inl (APIError (StatusCode resp) (errmsg (Body resp))), n')
          else (Inr (Body resp, nextLink resp), n'))"

text \<open>
  Modelled from the spec: the \<open>Client\<close> whose methods are the four above, for a base
  endpoint, a decoder of error payloads, a JSON decoder of documents and the bytes a
  download hands back.
\<close>

definition spec_client ::
  "string \<Rightarrow> (string \<Rightarrow> string) \<Rightarrow> (string \<Rightarrow> Document \<Rightarrow> error option \<times> Document)
     \<Rightarrow> (string \<Rightarrow> string) \<Rightarrow> net client" where
  "spec_client endpoint errmsg decode blobOf =
     \<lparr>newRequest = spec_newRequest endpoint,
      do = spec_do errmsg decode,
      download = spec_download errmsg blobOf,
      fetchPage = spec_fetchPage endpoint errmsg\<rparr>"

section \<open>The layout of a multipart body\<close>

text \<open>
  What the parts of a \<open>multipart/form-data\<close> body look like for a boundary \<open>b\<close>: the
  file part, which comes first, a form field after it, and the closing delimiter.
  The encoder is compared with this layout.
\<close>

definition formFilePart :: "string \<Rightarrow> string \<Rightarrow> string \<Rightarrow> string \<Rightarrow> string \<Rightarrow> string" where
  "formFilePart b fieldname filename ctype payload =
     ''--'' @ b @ CRLF @
     ''Content-Disposition: '' @ formFileDisposition fieldname filename @ CRLF @
     ''Content-Type: '' @ ctype @ CRLF @
     CRLF @ payload"

definition formFieldHeader :: "string \<Rightarrow> string \<Rightarrow> string" where
  "formFieldHeader b fieldname =
     CRLF @ ''--'' @ b @ CRLF @
     ''Content-Disposition: form-data; name='' @ [dquote] @ escapeQuotes fieldname @ [dquote] @
     CRLF @ CRLF"

definition formFieldPart :: "string \<Rightarrow> string \<Rightarrow> string \<Rightarrow> string" where
  "formFieldPart b fieldname val = formFieldHeader b fieldname @ val"

definition closingDelimiter :: "string \<Rightarrow> string" where
  "closingDelimiter b = CRLF @ ''--'' @ b @ ''--'' @ CRLF"

text \<open>\<open>strings.HasPrefix\<close> and \<open>strings.Contains\<close>.\<close>

fun HasPrefix :: "string \<Rightarrow> string \<Rightarrow> bool" where
  "HasPrefix s [] = True"
| "HasPrefix [] (p # ps) = False"
| "HasPrefix (c # cs) (p # ps) = (c = p \<and> HasPrefix cs ps)"

fun Contains :: "string \<Rightarrow> string \<Rightarrow> bool" where
  "Contains [] substr = (substr = [])"
| "Contains (c # cs) substr = (HasPrefix (c # cs) substr \<or> Contains cs substr)"

text \<open>An encoded body has a form part for the field \<open>fieldname\<close>.\<close>

definition hasFormField :: "string \<Rightarrow> string \<Rightarrow> string \<Rightarrow> bool" where
  "hasFormField b fieldname encoded = Contains encoded (formFieldHeader b fieldname)"

text \<open>
  The 512-byte buffer that \<open>createFormFile\<close> hands to the sniffer for a stream: the
  bytes read at the stream's position, then zeros.
\<close>

definition sniffed :: "stream \<Rightarrow> string" where
  "sniffed f =
     (let d = take 512 (drop (pos f) (content f))
      in d @ replicate (512 - length d) (CHR 0x00))"

text \<open>
  A multipart writer on which the next write succeeds: its buffer has no fault left
  and its current part, if any, is open and has recorded no error.
\<close>

definition healthy :: "mwriter \<Rightarrow> bool" where
  "healthy m =
     (wfaults (mw_w m) = [] \<and>
      (case mw_lastpart m of None \<Rightarrow> True | Some p \<Rightarrow> \<not> closed p \<and> we p = None))"

section \<open>Faults met by the encoding\<close>

text \<open>
  The copy loop reads the content in buffer-fulls of 32 KiB: \<open>chunks n\<close> is the number
  of reads that return data for \<open>n\<close> bytes of content.
\<close>

definition chunks :: "nat \<Rightarrow> nat" where
  "chunks n = (n + 32767) div 32768"

text \<open>A fault script has no fault among its first \<open>k\<close> entries.\<close>

definition noFault :: "nat \<Rightarrow> string option list \<Rightarrow> bool" where
  "noFault k script = list_all (\<lambda>x. x = None) (take k script)"

text \<open>The current part of a multipart writer, if any, is open and has recorded no error.\<close>

definition partsOpen :: "mwriter \<Rightarrow> bool" where
  "partsOpen m =
     (case mw_lastpart m of None \<Rightarrow> True | Some p \<Rightarrow> \<not> closed p \<and> we p = None)"

text \<open>An error is the \<open>IOError\<close> of a fault of the script.\<close>

definition scripted :: "string option list \<Rightarrow> error \<Rightarrow> bool" where
  "scripted script e = (case e of IOError msg \<Rightarrow> Some msg \<in> set script | _ \<Rightarrow> False)"

text \<open>
  No step that the encoding of an upload executes meets a fault, and the stream has
  bytes left to read. For a content of \<open>k\<close> buffer-fulls the steps are \<open>k + 2\<close> reads
  (the sniffing, one per buffer-full, and the one that finds the end), one seek, and
  \<open>k + 8\<close> writes (the header of the file part, one per buffer-full, a header and a
  value for each of the three fields, and the closing delimiter).
\<close>

definition faultFree :: "env \<Rightarrow> DocumentRequest \<Rightarrow> bool" where
  "faultFree ev dr =
     (let f = File dr; k = chunks (length (content f))
      in pos f < length (content f) \<and>
         noFault (k + 2) (rfaults f) \<and>
         noFault 1 (sfaults f) \<and>
         noFault (k + 8) (bufferFaults ev))"

section \<open>The inputs of the repository's tests\<close>

text \<open>
  \<open>TestUploadDocument_NonOKResponse\<close> uploads \<open>bytes.NewReader([]byte("test"))\<close> as the
  front side of an identity card, with no issuing country.
\<close>

definition testFile :: stream where
  "testFile = \<lparr>content = ''test'', pos = 0, rfaults = [], sfaults = []\<rparr>"

definition testRequest :: DocumentRequest where
  "testRequest =
     \<lparr>File = testFile, Type = DocumentTypeIDCard, Side = DocumentSideFront,
      IssuingCountry = []\<rparr>"

text \<open>The same upload with a stream that already stands at offset 2.\<close>

definition midStreamRequest :: DocumentRequest where
  "midStreamRequest = testRequest\<lparr>File := testFile\<lparr>pos := 2\<rparr>\<rparr>"

text \<open>
  The same upload with a stream whose second read, the first of the copy loop, fails.
\<close>

definition brokenCopyRequest :: DocumentRequest where
  "brokenCopyRequest = testRequest\<lparr>File := testFile\<lparr>rfaults := [None, Some ''disk'']\<rparr>\<rparr>"

text \<open>
  \<open>http.DetectContentType\<close> answers \<open>application/octet-stream\<close> when no signature
  matches, as for a buffer that holds zero bytes; \<open>octetStream\<close> is that answer.
\<close>

definition octetStream :: "string \<Rightarrow> string" where
  "octetStream buffer = ''application/octet-stream''"

definition testEnv :: env where
  "testEnv = \<lparr>DetectContentType = octetStream, randomBoundary = ''b0unDary'', bufferFaults = []\<rparr>"

text \<open>
  The services of the tests: one answers every request with status 403 and an error
  payload, one with status 200 and a list of one document, one with status 200 and the
  bytes \<open>hello world\<close>.
\<close>

definition forbiddenServer :: "request \<Rightarrow> error + response" where
  "forbiddenServer r =
     Inr \<lparr>StatusCode = 403,
          Body = ''{'' @ [dquote] @ ''error'' @ [dquote] @ '': '' @ [dquote] @
                 ''things went bad'' @ [dquote] @ ''}'',
          nextLink = []\<rparr>"

definition onePageServer :: "request \<Rightarrow> error + response" where
  "onePageServer r = Inr \<lparr>StatusCode = 200, Body = ''one document'', nextLink = []\<rparr>"

definition helloServer :: "request \<Rightarrow> error + response" where
  "helloServer r = Inr \<lparr>StatusCode = 200, Body = ''hello world'', nextLink = []\<rparr>"

text \<open>
  Stand-ins for the JSON codec on the payloads of these services: the document list of
  \<open>onePageServer\<close> decodes to one document, anything else is malformed.
\<close>

definition testDocument :: Document where
  "testDocument =
     zeroDocument\<lparr>ID := ''ce62d838-56f8-4ea5-98be-e7166d1dc33d'', FileName := ''localfile.png'',
       FileType := ''png'', FileSize := 282123, Document.Type := DocumentTypePassport,
       Document.Side := DocumentSideBack\<rparr>"

definition testUnmarshal :: "string \<Rightarrow> error + Documents" where
  "testUnmarshal payload =
     (if payload = ''one document'' then Inr \<lparr>Documents = [Some testDocument]\<rparr>
      else Inl (DecodeError payload))"

definition testDecode :: "string \<Rightarrow> Document \<Rightarrow> error option \<times> Document" where
  "testDecode payload v =
     (if payload = ''one document'' then (None, testDocument)
      else (Some (DecodeError payload), v))"

text \<open>
  A \<open>newRequest\<close> that fails, as \<open>http.NewRequest\<close> does on a URL it cannot parse: it
  returns a nil request and the error.
\<close>

definition failingNewRequest ::
  "error \<Rightarrow> string \<Rightarrow> string \<Rightarrow> string option \<Rightarrow> request option \<times> error option" where
  "failingNewRequest e m path b = (None, Some e)"

section \<open>Properties of the download sink\<close>

lemma Writes_snoc: "Writes d (bss @ [bs]) = snd (Write (Writes d bss) bs)"
  by (induction bss arbitrary: d) simp_all

section \<open>Properties of the escaping\<close>

lemma escapeQuotes_Nil: "escapeQuotes [] = []"
  by (simp add: escapeQuotes_def Replace_def)

lemma escapeQuotes_Cons:
  "escapeQuotes (c # cs) =
     (if c = backslash then [backslash, backslash]
      else if c = dquote then [backslash, dquote] else [c]) @ escapeQuotes cs"
  by (simp add: escapeQuotes_def Replace_def quoteEscaper_def)

lemma unescapeQuotes_plain: "c \<noteq> backslash \<Longrightarrow> unescapeQuotes (c # cs) = c # unescapeQuotes cs"
  by (cases cs) simp_all

lemma unescape_escape: "unescapeQuotes (escapeQuotes s) = s"
  by (induction s) (simp_all add: escapeQuotes_Nil escapeQuotes_Cons unescapeQuotes_plain)

lemma readQuoted_plain:
  "c \<noteq> backslash \<Longrightarrow> c \<noteq> dquote \<Longrightarrow>
   readQuoted (c # cs) = map_option (\<lambda>(v, r). (c # v, r)) (readQuoted cs)"
  by (cases cs) simp_all

lemma readQuoted_dquote: "readQuoted (dquote # cs) = Some ([], cs)"
  by (cases cs) simp_all

lemma readQuoted_escape: "readQuoted (escapeQuotes s @ dquote # rest) = Some (s, rest)"
  by (induction s)
     (simp_all add: escapeQuotes_Nil escapeQuotes_Cons readQuoted_plain readQuoted_dquote)

lemma stripPrefix_append: "stripPrefix p (p @ s) = Some s"
  by (induction p) simp_all

section \<open>Properties of streams, the buffer and the multipart writer\<close>

lemma sinkWrite_ok:
  "sinkWrite k d = ((n, None), k') \<Longrightarrow> data k' = data k @ d \<and> n = length d"
  by (auto simp: sinkWrite_def split: list.splits option.splits)

lemma sinkWrite_err_data:
  "sinkWrite k d = ((n, Some e), k') \<Longrightarrow> data k' = data k"
  by (auto simp: sinkWrite_def split: list.splits option.splits)

lemma CreatePart_ok:
  assumes "CreatePart m h = (None, m')"
  shows "data (mw_w m') =
           data (mw_w m) @ (if mw_lastpart m \<noteq> None then CRLF else []) @
           ''--'' @ mw_boundary m @ CRLF @ partHeader h @ CRLF"
    and "mw_boundary m' = mw_boundary m"
    and "mw_lastpart m' = Some \<lparr>closed = False, we = None\<rparr>"
  using assms
  by (auto simp: CreatePart_def Let_def split: option.splits prod.splits dest!: sinkWrite_ok)

lemma partWrite_ok:
  assumes "partWrite m d = ((n, None), m')"
  shows "data (mw_w m') = data (mw_w m) @ d"
    and "n = length d"
    and "mw_boundary m' = mw_boundary m"
    and "mw_lastpart m' = mw_lastpart m"
  using assms
  by (auto simp: partWrite_def split: option.splits prod.splits if_splits dest!: sinkWrite_ok)

lemma Read_ok:
  assumes "Read f n = ((d, None), f')"
  shows "d = take n (drop (pos f) (content f))"
    and "content f' = content f"
    and "pos f' = pos f + length d"
    and "pos f < length (content f)"
  using assms
  by (auto simp: Read_def Let_def split: list.splits option.splits if_splits)

lemma Read_err:
  assumes "Read f n = ((d, Some e), f')"
  shows "d = []" and "content f' = content f" and "pos f' = pos f"
    and "e = EOF \<Longrightarrow> length (content f) \<le> pos f"
  using assms
  by (auto simp: Read_def Let_def split: list.splits option.splits if_splits)

lemma Seek_start_ok:
  assumes "Seek f 0 0 = ((n, None), f')"
  shows "pos f' = 0" and "content f' = content f" and "n = 0" and "rfaults f' = rfaults f"
  using assms
  by (auto simp: Seek_def Let_def split: list.splits option.splits if_splits)


lemma Read_nonempty:
  "Read f n = ((d, None), f') \<Longrightarrow> 0 < n \<Longrightarrow> d \<noteq> []"
  by (auto simp: Read_def Let_def split: list.splits option.splits if_splits)

lemma Read_EOF:
  assumes "Read f n = ((d, Some EOF), f')"
  shows "length (content f) \<le> pos f" and "content f' = content f"
  using assms
  by (auto simp: Read_def Let_def split: list.splits option.splits if_splits)

lemma take_drop_length: "take n xs @ drop (length (take n xs)) xs = xs"
  by (cases "n \<le> length xs") (simp_all add: min_def)

lemma copyBuffer_ok:
  "copyBuffer dst src wr = ((n, None), dst', src') \<Longrightarrow>
     data (mw_w dst') = data (mw_w dst) @ drop (pos src) (content src) \<and>
     n = wr + (length (content src) - pos src) \<and>
     mw_boundary dst' = mw_boundary dst \<and> mw_lastpart dst' = mw_lastpart dst \<and>
     content src' = content src"
proof (induction dst src wr arbitrary: n dst' src' rule: copyBuffer.induct)
  case (1 dst src written)
  obtain d er s1 where R: "Read src 32768 = ((d, er), s1)"
    by (metis prod.exhaust)
  show ?case
  proof (cases "d = []")
    case True
    note dnil = this
    show ?thesis
    proof (cases er)
      case None
      with R dnil have False
        by (auto dest: Read_nonempty)
      then show ?thesis ..
    next
      case (Some e)
      with R dnil "1.prems" have eof: "e = EOF" and eqs: "dst' = dst" "src' = s1" "n = written"
        by (auto simp: copyBuffer.simps [of dst src written] split: if_splits)
      from R Some have "Read src 32768 = (([], Some EOF), s1)"
        using dnil eof by simp
      from Read_EOF [OF this] eqs show ?thesis
        by simp
    qed
  next
    case False
    note dne = this
    obtain nw ew d1 where W: "partWrite dst d = ((nw, ew), d1)"
      by (metis prod.exhaust)
    from R W dne "1.prems" have ew: "ew = None"
      by (auto simp: copyBuffer.simps [of dst src written] split: option.splits if_splits)
    note Wok = partWrite_ok [OF W [unfolded ew]]
    show ?thesis
    proof (cases er)
      case None
      note Rok = Read_ok [OF R [unfolded None]]
      from R W dne ew None Wok "1.prems"
      have rec: "copyBuffer d1 s1 (written + nw) = ((n, None), dst', src')"
        by (simp add: copyBuffer.simps [of dst src written])
      have IH: "data (mw_w dst') = data (mw_w d1) @ drop (pos s1) (content s1) \<and>
        n = written + nw + (length (content s1) - pos s1) \<and>
        mw_boundary dst' = mw_boundary d1 \<and> mw_lastpart dst' = mw_lastpart d1 \<and>
        content src' = content s1"
        using "1.IH"(1) [OF R [symmetric] refl dne W [symmetric] refl ew _ None rec] Wok(2)
        by simp
      have "drop (pos src) (content src) = d @ drop (length d) (drop (pos src) (content src))"
        using take_drop_length [of 32768 "drop (pos src) (content src)"]
        by (simp only: Rok(1) [symmetric])
      then have split: "drop (pos src) (content src) = d @ drop (pos s1) (content s1)"
        by (simp only: drop_drop Rok(2) Rok(3) add.commute)
      have len: "length (content src) - pos src = nw + (length (content s1) - pos s1)"
        using Rok(2) Rok(3) Rok(4) Wok(2) split
        by (metis add_diff_cancel_left' diff_diff_left length_append length_drop)
      from IH Wok(1) Wok(3) Wok(4) Rok(2) split len show ?thesis
        by simp
    next
      case (Some e)
      with R W dne ew Wok "1.prems" have eof: "e = EOF" and eqs: "dst' = d1" "src' = s1" "n = written + nw"
        by (auto simp: copyBuffer.simps [of dst src written] split: if_splits)
      from R Some eof have "Read src 32768 = ((d, Some EOF), s1)"
        by simp
      from Read_err(1) [OF this] dne show ?thesis
        by simp
    qed
  qed
qed

section \<open>Properties of the upload encoder\<close>

lemma hset_field:
  "hset ''Content-Disposition'' v [] = [(''Content-Disposition'', v)]"
  by simp

lemma hset_file:
  "hset ''Content-Type'' t (hset ''Content-Disposition'' v []) =
     [(''Content-Disposition'', v), (''Content-Type'', t)]"
  by simp

lemma partHeader_field:
  "partHeader [(''Content-Disposition'', v)] = ''Content-Disposition: '' @ v @ CRLF"
  by (simp add: partHeader_def)

lemma partHeader_file:
  "partHeader [(''Content-Disposition'', v), (''Content-Type'', t)] =
     ''Content-Disposition: '' @ v @ CRLF @ ''Content-Type: '' @ t @ CRLF"
  by (simp add: partHeader_def)

lemma WriteField_ok:
  assumes "WriteField m fieldname val = (None, m')" and "mw_lastpart m \<noteq> None"
  shows "data (mw_w m') = data (mw_w m) @ formFieldPart (mw_boundary m) fieldname val"
    and "mw_boundary m' = mw_boundary m"
    and "mw_lastpart m' \<noteq> None"
proof -
  from assms(1) obtain m1 n where
    C: "CreatePart m (hset ''Content-Disposition''
          (''form-data; name='' @ [dquote] @ escapeQuotes fieldname @ [dquote]) []) = (None, m1)"
    and W: "partWrite m1 val = ((n, None), m')"
    by (auto simp: WriteField_def CreateFormField_def split: prod.splits option.splits)
  note Cok = CreatePart_ok [OF C]
  note Wok = partWrite_ok [OF W]
  from Cok(1) Wok(1) assms(2)
  show "data (mw_w m') = data (mw_w m) @ formFieldPart (mw_boundary m) fieldname val"
    by (simp only: hset_field partHeader_field formFieldPart_def formFieldHeader_def) simp
  from Cok(2) Wok(3) show "mw_boundary m' = mw_boundary m"
    by simp
  from Cok(3) Wok(4) show "mw_lastpart m' \<noteq> None"
    by simp
qed

lemma Close_ok:
  assumes "Close m = (None, m')"
  shows "data (mw_w m') = data (mw_w m) @ CRLF @ ''--'' @ mw_boundary m @ ''--'' @ CRLF"
    and "mw_boundary m' = mw_boundary m"
  using assms
  by (auto simp: Close_def split: option.splits prod.splits dest!: sinkWrite_ok)

lemma createFormFile_ok:
  assumes "createFormFile ev m fieldname f filename = (None, m', f')"
  shows "pos f' = 0"
    and "content f' = content f"
    and "data (mw_w m') =
           data (mw_w m) @ (if mw_lastpart m \<noteq> None then CRLF else []) @
           ''--'' @ mw_boundary m @ CRLF @
           ''Content-Disposition: '' @ formFileDisposition fieldname filename @ CRLF @
           ''Content-Type: '' @
             DetectContentType ev (sniffed f) @
           CRLF @ CRLF"
    and "mw_boundary m' = mw_boundary m"
    and "mw_lastpart m' \<noteq> None"
    and "pos f < length (content f)"
proof -
  from assms obtain d f1 n where
    R: "Read f 512 = ((d, None), f1)" and
    S: "Seek f1 0 0 = ((n, None), f')" and
    C: "CreatePart m
          (hset ''Content-Type'' (DetectContentType ev (d @ replicate (512 - length d) (CHR 0x00)))
             (hset ''Content-Disposition'' (formFileDisposition fieldname filename) []))
        = (None, m')"
    by (auto simp: createFormFile_def Let_def split: prod.splits option.splits)
  note Rok = Read_ok [OF R]
  note Sok = Seek_start_ok [OF S]
  note Cok = CreatePart_ok [OF C]
  from Sok(1) show "pos f' = 0" .
  from Sok(2) Rok(2) show "content f' = content f" by simp
  from Cok(1) show "data (mw_w m') =
           data (mw_w m) @ (if mw_lastpart m \<noteq> None then CRLF else []) @
           ''--'' @ mw_boundary m @ CRLF @
           ''Content-Disposition: '' @ formFileDisposition fieldname filename @ CRLF @
           ''Content-Type: '' @
             DetectContentType ev (sniffed f) @
           CRLF @ CRLF"
    by (simp only: hset_file partHeader_file Rok(1) append_assoc sniffed_def Let_def)
  from Cok(2) show "mw_boundary m' = mw_boundary m" .
  from Cok(3) show "mw_lastpart m' \<noteq> None" by simp
  from Rok(4) show "pos f < length (content f)" .
qed


lemma sinkWrite_nofault:
  "wfaults k = [] \<Longrightarrow> sinkWrite k d = ((length d, None), k\<lparr>data := data k @ d\<rparr>)"
  by (simp add: sinkWrite_def)

lemma CreatePart_succeeds:
  assumes "healthy m"
  shows "\<exists>m'. CreatePart m h = (None, m') \<and> healthy m' \<and> mw_lastpart m' \<noteq> None"
  using assms
  by (auto simp: CreatePart_def healthy_def Let_def sinkWrite_nofault split: option.splits)

lemma partWrite_succeeds:
  assumes "healthy m" and "mw_lastpart m \<noteq> None"
  shows "\<exists>m'. partWrite m d = ((length d, None), m') \<and> healthy m' \<and> mw_lastpart m' \<noteq> None"
  using assms
  by (auto simp: partWrite_def healthy_def sinkWrite_nofault split: option.splits)

lemma WriteField_succeeds:
  assumes "healthy m"
  shows "\<exists>m'. WriteField m fieldname val = (None, m') \<and> healthy m' \<and> mw_lastpart m' \<noteq> None"
proof -
  from CreatePart_succeeds [OF assms] obtain m1 where
    C: "CreateFormField m fieldname = (None, m1)" and h1: "healthy m1" and l1: "mw_lastpart m1 \<noteq> None"
    unfolding CreateFormField_def by blast
  from partWrite_succeeds [OF h1 l1] obtain m2 where
    W: "partWrite m1 val = ((length val, None), m2)" and h2: "healthy m2" and l2: "mw_lastpart m2 \<noteq> None"
    by blast
  from C W h2 l2 show ?thesis
    by (simp add: WriteField_def)
qed

lemma Close_succeeds:
  assumes "healthy m"
  shows "\<exists>m'. Close m = (None, m')"
  using assms
  by (auto simp: Close_def healthy_def sinkWrite_nofault split: option.splits)

lemma Read_nofault:
  assumes "rfaults f = []" and "pos f < length (content f)"
  shows "Read f n =
           ((take n (drop (pos f) (content f)), None),
            f\<lparr>rfaults := [], pos := pos f + length (take n (drop (pos f) (content f)))\<rparr>)"
  using assms
  by (simp add: Read_def Let_def)

lemma Read_nofault_EOF:
  assumes "rfaults f = []" and "length (content f) \<le> pos f"
  shows "Read f n = (([], Some EOF), f\<lparr>rfaults := []\<rparr>)"
  using assms
  by (simp add: Read_def Let_def)

lemma Seek_start_nofault:
  assumes "sfaults f = []"
  shows "Seek f 0 0 = ((0, None), f\<lparr>sfaults := [], pos := 0\<rparr>)"
  using assms
  by (simp add: Seek_def Let_def)

lemma copyBuffer_succeeds:
  "rfaults src = [] \<Longrightarrow> healthy dst \<Longrightarrow> mw_lastpart dst \<noteq> None \<Longrightarrow>
   \<exists>n dst' src'. copyBuffer dst src wr = ((n, None), dst', src') \<and> healthy dst' \<and>
      mw_lastpart dst' \<noteq> None"
proof (induction dst src wr rule: copyBuffer.induct)
  case (1 dst src written)
  show ?case
  proof (cases "pos src < length (content src)")
    case False
    then have R: "Read src 32768 = (([], Some EOF), src\<lparr>rfaults := []\<rparr>)"
      using "1.prems"(1) by (simp add: Read_nofault_EOF)
    show ?thesis
      using "1.prems"(2,3) by (simp add: copyBuffer.simps [of dst src written] R)
  next
    case True
    define d where "d = take 32768 (drop (pos src) (content src))"
    define s1 where "s1 = src\<lparr>rfaults := [], pos := pos src + length d\<rparr>"
    have R: "Read src 32768 = ((d, None), s1)"
      using "1.prems"(1) True by (simp add: Read_nofault d_def s1_def)
    have dne: "d \<noteq> []"
      using Read_nonempty [OF R] by simp
    from partWrite_succeeds [OF "1.prems"(2,3)] obtain d1 where
      W: "partWrite dst d = ((length d, None), d1)" and h1: "healthy d1"
      and l1: "mw_lastpart d1 \<noteq> None"
      by blast
    have rf: "rfaults s1 = []"
      by (simp add: s1_def)
    from "1.IH"(1) [OF R [symmetric] refl dne W [symmetric] refl refl _ refl rf h1 l1]
    obtain n dst' src' where
      rec: "copyBuffer d1 s1 (written + length d) = ((n, None), dst', src')"
      and h': "healthy dst'" and l': "mw_lastpart dst' \<noteq> None"
      by auto
    show ?thesis
      using rec h' l' dne by (simp add: copyBuffer.simps [of dst src written] R W)
  qed
qed


lemma uploadBody_ok:
  assumes "uploadBody ev dr filename = (None, wr, f)"
  shows "data (mw_w wr) =
           formFilePart (randomBoundary ev) ''file'' filename
             (DetectContentType ev (sniffed (File dr))) (content (File dr)) @
           formFieldPart (randomBoundary ev) ''type'' (DocumentRequest.Type dr) @
           formFieldPart (randomBoundary ev) ''side'' (DocumentRequest.Side dr) @
           formFieldPart (randomBoundary ev) ''issuing_country'' (DocumentRequest.IssuingCountry dr) @
           closingDelimiter (randomBoundary ev)"
    and "mw_boundary wr = randomBoundary ev"
proof -
  define w0 where "w0 = NewWriter \<lparr>data = [], wfaults = bufferFaults ev\<rparr> (randomBoundary ev)"
  from assms obtain w1 f1 n w2 f2 w3 w4 w5 where
    F: "createFormFile ev w0 ''file'' (File dr) filename = (None, w1, f1)" and
    C: "Copy w1 f1 = ((n, None), w2, f2)" and
    T: "WriteField w2 ''type'' (DocumentRequest.Type dr) = (None, w3)" and
    S: "WriteField w3 ''side'' (DocumentRequest.Side dr) = (None, w4)" and
    I: "WriteField w4 ''issuing_country'' (DocumentRequest.IssuingCountry dr) = (None, w5)" and
    Z: "Close w5 = (None, wr)"
    unfolding uploadBody_def Let_def w0_def [symmetric]
    by (auto split: prod.splits option.splits)
  have w0: "data (mw_w w0) = []" "mw_boundary w0 = randomBoundary ev" "mw_lastpart w0 = None"
    by (simp_all add: w0_def NewWriter_def)
  note Fok = createFormFile_ok [OF F]
  from C have "copyBuffer w1 f1 0 = ((n, None), w2, f2)"
    by (simp add: Copy_def)
  note Cok = copyBuffer_ok [OF this]
  from Cok Fok(5) have l2: "mw_lastpart w2 \<noteq> None" by simp
  note Tok = WriteField_ok [OF T l2]
  note Sok = WriteField_ok [OF S Tok(3)]
  note Iok = WriteField_ok [OF I Sok(3)]
  note Zok = Close_ok [OF Z]
  have b: "mw_boundary w1 = randomBoundary ev" "mw_boundary w2 = randomBoundary ev"
    "mw_boundary w3 = randomBoundary ev" "mw_boundary w4 = randomBoundary ev"
    "mw_boundary w5 = randomBoundary ev"
    using Fok(4) Cok Tok(2) Sok(2) Iok(2) w0(2) by simp_all
  from Zok(2) b show "mw_boundary wr = randomBoundary ev" by simp
  have d1: "data (mw_w w1) =
      ''--'' @ randomBoundary ev @ CRLF @
      ''Content-Disposition: '' @ formFileDisposition ''file'' filename @ CRLF @
      ''Content-Type: '' @ DetectContentType ev (sniffed (File dr)) @ CRLF @ CRLF"
    using Fok(3) w0 by simp
  have d2: "data (mw_w w2) = data (mw_w w1) @ content (File dr)"
    using Cok Fok(1) Fok(2) by simp
  have d3: "data (mw_w w3) = data (mw_w w2) @
      formFieldPart (randomBoundary ev) ''type'' (DocumentRequest.Type dr)"
    using Tok(1) b by simp
  have d4: "data (mw_w w4) = data (mw_w w3) @
      formFieldPart (randomBoundary ev) ''side'' (DocumentRequest.Side dr)"
    using Sok(1) b by simp
  have d5: "data (mw_w w5) = data (mw_w w4) @
      formFieldPart (randomBoundary ev) ''issuing_country'' (DocumentRequest.IssuingCountry dr)"
    using Iok(1) b by simp
  have d6: "data (mw_w wr) = data (mw_w w5) @ closingDelimiter (randomBoundary ev)"
    using Zok(1) b by (simp add: closingDelimiter_def)
  show "data (mw_w wr) =
           formFilePart (randomBoundary ev) ''file'' filename
             (DetectContentType ev (sniffed (File dr))) (content (File dr)) @
           formFieldPart (randomBoundary ev) ''type'' (DocumentRequest.Type dr) @
           formFieldPart (randomBoundary ev) ''side'' (DocumentRequest.Side dr) @
           formFieldPart (randomBoundary ev) ''issuing_country'' (DocumentRequest.IssuingCountry dr) @
           closingDelimiter (randomBoundary ev)"
    unfolding d6 d5 d4 d3 d2 d1 formFilePart_def
    by (simp only: append_assoc)
qed

lemma createFormFile_succeeds:
  assumes "rfaults f = []" and "sfaults f = []" and "pos f < length (content f)"
    and "healthy m"
  shows "\<exists>m' f'. createFormFile ev m fieldname f filename = (None, m', f') \<and>
           healthy m' \<and> mw_lastpart m' \<noteq> None \<and> rfaults f' = []"
proof -
  define d where "d = take 512 (drop (pos f) (content f))"
  define f1 where "f1 = f\<lparr>rfaults := [], pos := pos f + length d\<rparr>"
  define f2 where "f2 = f1\<lparr>sfaults := [], pos := 0\<rparr>"
  have R: "Read f 512 = ((d, None), f1)"
    unfolding d_def f1_def using assms(1,3) by (rule Read_nofault)
  have "sfaults f1 = []"
    using assms(2) by (simp add: f1_def)
  then have S: "Seek f1 0 0 = ((0, None), f2)"
    unfolding f2_def by (rule Seek_start_nofault)
  from CreatePart_succeeds [OF assms(4)] obtain m' where
    C: "CreatePart m
          (hset ''Content-Type'' (DetectContentType ev (d @ replicate (512 - length d) (CHR 0x00)))
             (hset ''Content-Disposition'' (formFileDisposition fieldname filename) []))
        = (None, m')" and h: "healthy m'" and l: "mw_lastpart m' \<noteq> None"
    by blast
  have "createFormFile ev m fieldname f filename = (None, m', f2)"
    by (simp only: createFormFile_def R S C Let_def prod.case option.case)
  moreover have "rfaults f2 = []"
    by (simp add: f2_def f1_def)
  ultimately show ?thesis
    using h l by blast
qed

lemma uploadBody_succeeds:
  assumes "bufferFaults ev = []" and "rfaults (File dr) = []" and "sfaults (File dr) = []"
    and "pos (File dr) < length (content (File dr))"
  shows "fst (uploadBody ev dr filename) = None"
proof -
  define w0 where "w0 = NewWriter \<lparr>data = [], wfaults = bufferFaults ev\<rparr> (randomBoundary ev)"
  have h0: "healthy w0"
    using assms(1) by (simp add: w0_def NewWriter_def healthy_def)
  from createFormFile_succeeds [OF assms(2,3,4) h0] obtain w1 f1 where
    F: "createFormFile ev w0 ''file'' (File dr) filename = (None, w1, f1)" and
    h1: "healthy w1" and l1: "mw_lastpart w1 \<noteq> None" and r1: "rfaults f1 = []"
    by blast
  from copyBuffer_succeeds [OF r1 h1 l1] obtain n w2 f2 where
    C: "Copy w1 f1 = ((n, None), w2, f2)" and h2: "healthy w2"
    unfolding Copy_def by blast
  from WriteField_succeeds [OF h2] obtain w3 where
    T: "WriteField w2 ''type'' (DocumentRequest.Type dr) = (None, w3)" and h3: "healthy w3"
    by blast
  from WriteField_succeeds [OF h3] obtain w4 where
    S: "WriteField w3 ''side'' (DocumentRequest.Side dr) = (None, w4)" and h4: "healthy w4"
    by blast
  from WriteField_succeeds [OF h4] obtain w5 where
    I: "WriteField w4 ''issuing_country'' (DocumentRequest.IssuingCountry dr) = (None, w5)"
    and h5: "healthy w5"
    by blast
  from Close_succeeds [OF h5] obtain w6 where Z: "Close w5 = (None, w6)"
    by blast
  show ?thesis
    unfolding uploadBody_def Let_def w0_def [symmetric]
    by (simp add: F C T S I Z)
qed

section \<open>The form fields of an upload\<close>

lemma HasPrefix_append: "HasPrefix (p @ s) p"
  by (induction p) simp_all

lemma Contains_here: "Contains (p @ s) p"
  using HasPrefix_append [of p s] by (cases "p @ s") auto

lemma Contains_append: "Contains (a @ p @ s) p"
  by (induction a) (simp_all add: Contains_here)

lemma hasFormField_part:
  "hasFormField b fieldname (pre @ formFieldPart b fieldname val @ post)"
  unfolding hasFormField_def formFieldPart_def
  using Contains_append [of pre "formFieldHeader b fieldname" "val @ post"]
  by (simp only: append_assoc)

lemma test_upload_encodes: "fst (uploadBody testEnv testRequest filename) = None"
  by (rule uploadBody_succeeds) (simp_all add: testEnv_def testRequest_def testFile_def)

text \<open>
  C1, as stated, fails: the upload of the tests has an empty issuing country, its
  encoding succeeds, and the encoded body has a form part for \<open>issuing_country\<close>.
\<close>

theorem issuing_country_part_written_when_empty:
  "fst (uploadBody testEnv testRequest ''test.png'') = None \<and>
   DocumentRequest.IssuingCountry testRequest = [] \<and>
   hasFormField (randomBoundary testEnv) ''issuing_country''
     (data (mw_w (fst (snd (uploadBody testEnv testRequest ''test.png'')))))"
proof -
  obtain wr f where U: "uploadBody testEnv testRequest ''test.png'' = (None, wr, f)"
    using test_upload_encodes [of "''test.png''"]
    by (metis fst_conv prod.exhaust)
  have "hasFormField (randomBoundary testEnv) ''issuing_country'' (data (mw_w wr))"
    unfolding uploadBody_ok(1) [OF U]
    using hasFormField_part [of "randomBoundary testEnv" "''issuing_country''"
        "formFilePart (randomBoundary testEnv) ''file'' ''test.png''
           (DetectContentType testEnv (sniffed (File testRequest))) (content (File testRequest)) @
         formFieldPart (randomBoundary testEnv) ''type'' (DocumentRequest.Type testRequest) @
         formFieldPart (randomBoundary testEnv) ''side'' (DocumentRequest.Side testRequest)"
        "DocumentRequest.IssuingCountry testRequest" "closingDelimiter (randomBoundary testEnv)"]
    by (simp only: append_assoc)
  then show ?thesis
    by (simp add: U) (simp add: testRequest_def)
qed


text \<open>
  C1, amended. Whenever the encoding of an upload succeeds, the encoded body is the file
  part followed by one form part for each of \<open>type\<close>, \<open>side\<close> and \<open>issuing_country\<close>,
  in that order, and by the closing delimiter: each of the three fields is written
  whether or not its value is empty, an empty value giving a part with an empty body.
\<close>

theorem upload_fields_always_written:
  "fst (uploadBody ev dr filename) = None \<Longrightarrow>
   data (mw_w (fst (snd (uploadBody ev dr filename)))) =
     formFilePart (randomBoundary ev) ''file'' filename
       (DetectContentType ev (sniffed (File dr))) (content (File dr)) @
     formFieldPart (randomBoundary ev) ''type'' (DocumentRequest.Type dr) @
     formFieldPart (randomBoundary ev) ''side'' (DocumentRequest.Side dr) @
     formFieldPart (randomBoundary ev) ''issuing_country'' (DocumentRequest.IssuingCountry dr) @
     closingDelimiter (randomBoundary ev)"
proof -
  assume "fst (uploadBody ev dr filename) = None"
  then obtain wr f where U: "uploadBody ev dr filename = (None, wr, f)"
    by (metis fst_conv prod.exhaust)
  from uploadBody_ok(1) [OF U] show ?thesis
    by (simp add: U)
qed

text \<open>The body of the upload of the tests, byte for byte.\<close>

theorem upload_fields_always_written_witness:
  "fst (uploadBody testEnv testRequest ''test.png'') = None \<and>
   data (mw_w (fst (snd (uploadBody testEnv testRequest ''test.png'')))) =
     ''--b0unDary'' @ CRLF @
     ''Content-Disposition: form-data; name='' @ [dquote] @ ''file'' @ [dquote] @
        ''; filename='' @ [dquote] @ ''test.png'' @ [dquote] @ CRLF @
     ''Content-Type: application/octet-stream'' @ CRLF @ CRLF @
     ''test'' @ CRLF @
     ''--b0unDary'' @ CRLF @
     ''Content-Disposition: form-data; name='' @ [dquote] @ ''type'' @ [dquote] @ CRLF @ CRLF @
     ''national_identity_card'' @ CRLF @
     ''--b0unDary'' @ CRLF @
     ''Content-Disposition: form-data; name='' @ [dquote] @ ''side'' @ [dquote] @ CRLF @ CRLF @
     ''front'' @ CRLF @
     ''--b0unDary'' @ CRLF @
     ''Content-Disposition: form-data; name='' @ [dquote] @ ''issuing_country'' @ [dquote] @
        CRLF @ CRLF @
     CRLF @
     ''--b0unDary--'' @ CRLF"
proof -
  have enc: "fst (uploadBody testEnv testRequest ''test.png'') = None"
    by (rule uploadBody_succeeds) (simp_all add: testEnv_def testRequest_def testFile_def)
  have esc: "escapeQuotes ''file'' = ''file''" "escapeQuotes ''test.png'' = ''test.png''"
    "escapeQuotes ''type'' = ''type''" "escapeQuotes ''side'' = ''side''"
    "escapeQuotes ''issuing_country'' = ''issuing_country''"
    by (simp_all add: escapeQuotes_Cons escapeQuotes_Nil)
  show ?thesis
    using enc upload_fields_always_written [OF enc]
    by (simp add: formFilePart_def formFieldPart_def formFieldHeader_def closingDelimiter_def
        formFileDisposition_def esc testEnv_def testRequest_def testFile_def octetStream_def
        DocumentTypeIDCard_def DocumentSideFront_def)
qed

section \<open>Sniffing does not consume the payload\<close>

lemma createFormFile_succeeds_fst:
  assumes "rfaults f = []" and "sfaults f = []" and "pos f < length (content f)"
    and "healthy m"
  shows "fst (createFormFile ev m fieldname f filename) = None"
    and "healthy (fst (snd (createFormFile ev m fieldname f filename)))"
    and "mw_lastpart (fst (snd (createFormFile ev m fieldname f filename))) \<noteq> None"
    and "rfaults (snd (snd (createFormFile ev m fieldname f filename))) = []"
  using createFormFile_succeeds [OF assms, of ev fieldname filename]
  by auto

lemma Copy_succeeds:
  assumes "rfaults src = []" and "healthy dst" and "mw_lastpart dst \<noteq> None"
  shows "snd (fst (Copy dst src)) = None"
  using copyBuffer_succeeds [OF assms, of 0]
  by (auto simp: Copy_def)

lemma healthy_NewWriter: "healthy (NewWriter \<lparr>data = d, wfaults = []\<rparr> b)"
  by (simp add: healthy_def NewWriter_def)

lemma sinkWrite_extends: "\<exists>x. data (snd (sinkWrite k d)) = data k @ x"
  by (auto simp: sinkWrite_def split: list.splits option.splits)

lemma CreatePart_extends: "\<exists>x. data (mw_w (snd (CreatePart m h))) = data (mw_w m) @ x"
proof -
  obtain r k' where W: "sinkWrite (mw_w m)
      ((if mw_lastpart m \<noteq> None then CRLF else []) @
        ''--'' @ mw_boundary m @ CRLF @ partHeader h @ CRLF) = (r, k')"
    by (metis prod.exhaust)
  from sinkWrite_extends [of "mw_w m"] W obtain x where "data k' = data (mw_w m) @ x"
    by (metis snd_conv)
  with W show ?thesis
    by (auto simp: CreatePart_def Let_def split: option.splits prod.splits)
qed

lemma partWrite_extends: "\<exists>x. data (mw_w (snd (partWrite m d))) = data (mw_w m) @ x"
proof -
  obtain r k' where W: "sinkWrite (mw_w m) d = (r, k')"
    by (metis prod.exhaust)
  from sinkWrite_extends [of "mw_w m" d] W obtain x where "data k' = data (mw_w m) @ x"
    by (metis snd_conv)
  with W show ?thesis
    by (auto simp: partWrite_def split: option.splits prod.splits)
qed

lemma WriteField_extends: "\<exists>x. data (mw_w (snd (WriteField m fieldname val))) = data (mw_w m) @ x"
proof -
  obtain e m1 where C: "CreateFormField m fieldname = (e, m1)"
    by (metis prod.exhaust)
  from CreatePart_extends [of m] C obtain x where x: "data (mw_w m1) = data (mw_w m) @ x"
    unfolding CreateFormField_def by (metis snd_conv)
  obtain r m2 where P: "partWrite m1 val = (r, m2)"
    by (metis prod.exhaust)
  from partWrite_extends [of m1 val] P obtain y where y: "data (mw_w m2) = data (mw_w m1) @ y"
    by (metis snd_conv)
  show ?thesis
  proof (cases e)
    case None
    with C P x y show ?thesis
      by (cases r) (simp add: WriteField_def)
  next
    case (Some a)
    with C x show ?thesis
      by (simp add: WriteField_def)
  qed
qed

lemma Close_extends: "\<exists>x. data (mw_w (snd (Close m))) = data (mw_w m) @ x"
proof -
  obtain r k' where W: "sinkWrite (mw_w m) (CRLF @ ''--'' @ mw_boundary m @ ''--'' @ CRLF) = (r, k')"
    by (metis prod.exhaust)
  from sinkWrite_extends [of "mw_w m"] W obtain x where "data k' = data (mw_w m) @ x"
    by (metis snd_conv)
  with W show ?thesis
    by (auto simp: Close_def split: option.splits prod.splits)
qed

lemma uploadBody_after_copy:
  assumes F: "createFormFile ev (NewWriter \<lparr>data = [], wfaults = bufferFaults ev\<rparr> (randomBoundary ev))
                ''file'' (File dr) filename = (None, m1, f1)"
    and C: "Copy m1 f1 = ((n, e2), m2, f2)"
  shows "snd (snd (uploadBody ev dr filename)) = f2"
    and "e2 = None \<Longrightarrow> \<exists>x. data (mw_w (fst (snd (uploadBody ev dr filename)))) = data (mw_w m2) @ x"
proof -
  obtain e3 w3 where T: "WriteField m2 ''type'' (DocumentRequest.Type dr) = (e3, w3)"
    by (metis prod.exhaust)
  obtain e4 w4 where S: "WriteField w3 ''side'' (DocumentRequest.Side dr) = (e4, w4)"
    by (metis prod.exhaust)
  obtain e5 w5 where I: "WriteField w4 ''issuing_country'' (DocumentRequest.IssuingCountry dr) = (e5, w5)"
    by (metis prod.exhaust)
  obtain e6 w6 where Z: "Close w5 = (e6, w6)"
    by (metis prod.exhaust)
  show "snd (snd (uploadBody ev dr filename)) = f2"
    by (simp add: uploadBody_def Let_def F C T S I Z split: option.splits)
  from WriteField_extends [of m2] T obtain x3 where x3: "data (mw_w w3) = data (mw_w m2) @ x3"
    by (metis snd_conv)
  from WriteField_extends [of w3] S obtain x4 where x4: "data (mw_w w4) = data (mw_w w3) @ x4"
    by (metis snd_conv)
  from WriteField_extends [of w4] I obtain x5 where x5: "data (mw_w w5) = data (mw_w w4) @ x5"
    by (metis snd_conv)
  from Close_extends [of w5] Z obtain x6 where x6: "data (mw_w w6) = data (mw_w w5) @ x6"
    by (metis snd_conv)
  show "\<exists>x. data (mw_w (fst (snd (uploadBody ev dr filename)))) = data (mw_w m2) @ x"
    if "e2 = None"
    using that x3 x4 x5 x6
    by (simp add: uploadBody_def Let_def F C T S I Z split: option.splits)
qed


lemma HasPrefix_prefix: "s = p @ x \<Longrightarrow> HasPrefix s p"
  by (simp add: HasPrefix_append)

text \<open>
  C2. In the encoding of an upload, whenever the sniffing step succeeds on the request's
  stream (the read and the seek did not fail), the stream it leaves is at offset 0 with
  its content unchanged, wherever the stream stood before, and that stream is the one
  the encoding copies; when the copy succeeds, it has copied as many bytes as the content
  has, and the encoded body begins with the file part holding the complete original
  content. An encoding that succeeds as a whole has passed both steps.
\<close>

theorem sniffing_rewinds_stream:
  "(let w0 = NewWriter \<lparr>data = [], wfaults = bufferFaults ev\<rparr> (randomBoundary ev);
        r = createFormFile ev w0 ''file'' (File dr) filename;
        m1 = fst (snd r); f1 = snd (snd r);
        u = uploadBody ev dr filename
    in (fst r = None \<longrightarrow>
          pos f1 = 0 \<and> content f1 = content (File dr) \<and>
          snd (snd u) = snd (snd (Copy m1 f1)) \<and>
          (snd (fst (Copy m1 f1)) = None \<longrightarrow>
             fst (fst (Copy m1 f1)) = length (content (File dr)) \<and>
             HasPrefix (data (mw_w (fst (snd u))))
               (formFilePart (randomBoundary ev) ''file'' filename
                  (DetectContentType ev (sniffed (File dr))) (content (File dr))))) \<and>
       (fst u = None \<longrightarrow> fst r = None \<and> snd (fst (Copy m1 f1)) = None))"
proof -
  define w0 where "w0 = NewWriter \<lparr>data = [], wfaults = bufferFaults ev\<rparr> (randomBoundary ev)"
  define r where "r = createFormFile ev w0 ''file'' (File dr) filename"
  define m1 where "m1 = fst (snd r)"
  define f1 where "f1 = snd (snd r)"
  define u where "u = uploadBody ev dr filename"
  have w0: "data (mw_w w0) = []" "mw_boundary w0 = randomBoundary ev" "mw_lastpart w0 = None"
    by (simp_all add: w0_def NewWriter_def)
  have A: "pos f1 = 0 \<and> content f1 = content (File dr) \<and>
          snd (snd u) = snd (snd (Copy m1 f1)) \<and>
          (snd (fst (Copy m1 f1)) = None \<longrightarrow>
             fst (fst (Copy m1 f1)) = length (content (File dr)) \<and>
             HasPrefix (data (mw_w (fst (snd u))))
               (formFilePart (randomBoundary ev) ''file'' filename
                  (DetectContentType ev (sniffed (File dr))) (content (File dr))))"
    if ok: "fst r = None"
  proof -
    from ok have F: "createFormFile ev w0 ''file'' (File dr) filename = (None, m1, f1)"
      by (simp add: r_def m1_def f1_def prod_eq_iff)
    note Fok = createFormFile_ok [OF F]
    obtain n e2 m2 f2 where C: "Copy m1 f1 = ((n, e2), m2, f2)"
      by (metis prod.exhaust)
    note U = uploadBody_after_copy [OF F [unfolded w0_def] C]
    have strm: "snd (snd u) = snd (snd (Copy m1 f1))"
      using U(1) C by (simp add: u_def)
    have cp: "fst (fst (Copy m1 f1)) = length (content (File dr)) \<and>
             HasPrefix (data (mw_w (fst (snd u))))
               (formFilePart (randomBoundary ev) ''file'' filename
                  (DetectContentType ev (sniffed (File dr))) (content (File dr)))"
      if "snd (fst (Copy m1 f1)) = None"
    proof -
      from that C have e2: "e2 = None" by simp
      from C e2 have "copyBuffer m1 f1 0 = ((n, None), m2, f2)"
        by (simp add: Copy_def)
      note Cok = copyBuffer_ok [OF this]
      from U(2) [OF e2] obtain x where
        x: "data (mw_w (fst (snd u))) = data (mw_w m2) @ x"
        by (auto simp: u_def)
      have "data (mw_w m2) = formFilePart (randomBoundary ev) ''file'' filename
                  (DetectContentType ev (sniffed (File dr))) (content (File dr))"
        using Cok Fok(1) Fok(2) Fok(3) w0 by (simp add: formFilePart_def)
      with x have "HasPrefix (data (mw_w (fst (snd u))))
               (formFilePart (randomBoundary ev) ''file'' filename
                  (DetectContentType ev (sniffed (File dr))) (content (File dr)))"
        by (simp add: HasPrefix_append)
      moreover have "fst (fst (Copy m1 f1)) = length (content (File dr))"
        using Cok Fok(1) Fok(2) C by simp
      ultimately show ?thesis by simp
    qed
    from Fok(1) Fok(2) strm cp show ?thesis
      by blast
  qed
  have B: "fst r = None \<and> snd (fst (Copy m1 f1)) = None" if "fst u = None"
  proof -
    from that obtain wr f where "uploadBody ev dr filename = (None, wr, f)"
      unfolding u_def by (metis fst_conv prod.exhaust)
    then obtain w1 f1' n w2 f2 where
      F: "createFormFile ev w0 ''file'' (File dr) filename = (None, w1, f1')" and
      C: "Copy w1 f1' = ((n, None), w2, f2)"
      unfolding uploadBody_def Let_def w0_def [symmetric]
      by (auto split: prod.splits option.splits)
    from F have "fst r = None" "m1 = w1" "f1 = f1'"
      by (simp_all add: r_def m1_def f1_def)
    with C show ?thesis by simp
  qed
  from A B show ?thesis
    unfolding Let_def w0_def [symmetric] r_def [symmetric] m1_def [symmetric]
      f1_def [symmetric] u_def [symmetric]
    by blast
qed

text \<open>
  A stream of the bytes \<open>test\<close> that stands at offset 2 when it is handed over: the
  sniffing reads \<open>st\<close>, and the body still holds all four bytes.
\<close>

theorem sniffing_rewinds_stream_witness:
  "(let w0 = NewWriter \<lparr>data = [], wfaults = bufferFaults testEnv\<rparr> (randomBoundary testEnv);
        r = createFormFile testEnv w0 ''file'' (File midStreamRequest) ''test.png'';
        m1 = fst (snd r); f1 = snd (snd r);
        u = uploadBody testEnv midStreamRequest ''test.png''
    in pos (File midStreamRequest) = 2 \<and> content (File midStreamRequest) = ''test'' \<and>
       fst r = None \<and> snd (fst (Copy m1 f1)) = None \<and> fst u = None \<and>
       pos f1 = 0 \<and> content f1 = content (File midStreamRequest) \<and>
       snd (snd u) = snd (snd (Copy m1 f1)) \<and>
       fst (fst (Copy m1 f1)) = length (content (File midStreamRequest)) \<and>
       HasPrefix (data (mw_w (fst (snd u))))
         (formFilePart (randomBoundary testEnv) ''file'' ''test.png''
            (DetectContentType testEnv (sniffed (File midStreamRequest)))
            (content (File midStreamRequest))))"
proof -
  let ?f = "File midStreamRequest"
  let ?w0 = "NewWriter \<lparr>data = [], wfaults = bufferFaults testEnv\<rparr> (randomBoundary testEnv)"
  have f: "rfaults ?f = []" "sfaults ?f = []" "pos ?f < length (content ?f)"
    and p: "pos ?f = 2" "content ?f = ''test''"
    by (simp_all add: midStreamRequest_def testRequest_def testFile_def)
  have h: "healthy ?w0"
    by (simp add: healthy_def NewWriter_def testEnv_def)
  note S = createFormFile_succeeds_fst [OF f h,
      where ev = testEnv and fieldname = "''file''" and filename = "''test.png''"]
  note C = Copy_succeeds [OF S(4) S(2) S(3)]
  have U: "fst (uploadBody testEnv midStreamRequest ''test.png'') = None"
    using f by (intro uploadBody_succeeds) (simp_all add: testEnv_def)
  note T = sniffing_rewinds_stream [of testEnv midStreamRequest "''test.png''", unfolded Let_def]
  show ?thesis
    unfolding Let_def using T S(1) C U p by blast
qed

section \<open>The Content-Disposition header of the file part\<close>

lemma escapeQuotes_concat:
  "escapeQuotes s =
     concat (map (\<lambda>c. if c = backslash then [backslash, backslash]
                       else if c = dquote then [backslash, dquote] else [c]) s)"
  by (induction s) (simp_all add: escapeQuotes_Nil escapeQuotes_Cons)

lemma escapeQuotes_inj: "(escapeQuotes s = escapeQuotes t) = (s = t)"
  by (metis unescape_escape)

lemma parseDisposition_formFile:
  "parseDisposition (formFileDisposition fieldname filename) = Some (fieldname, filename)"
proof -
  have 1: "stripPrefix (''form-data; name='' @ [dquote]) (formFileDisposition fieldname filename)
           = Some (escapeQuotes fieldname @ dquote #
                   (''; filename='' @ [dquote]) @ escapeQuotes filename @ [dquote])"
    unfolding formFileDisposition_def
    using stripPrefix_append [of "''form-data; name='' @ [dquote]"
        "escapeQuotes fieldname @ dquote # (''; filename='' @ [dquote]) @ escapeQuotes filename @ [dquote]"]
    by simp
  have 2: "stripPrefix (''; filename='' @ [dquote])
             ((''; filename='' @ [dquote]) @ escapeQuotes filename @ [dquote])
           = Some (escapeQuotes filename @ [dquote])"
    by (rule stripPrefix_append)
  show ?thesis
    unfolding parseDisposition_def
    by (simp only: 1 2 readQuoted_escape option.case prod.case) simp
qed

text \<open>
  C3. \<open>escapeQuotes\<close> replaces every backslash by two backslashes and every double quote
  by backslash-quote and leaves every other byte alone; unescaping recovers the string,
  so the escaping is injective; parsing the \<open>Content-Disposition\<close> value that
  \<open>createFormFile\<close> formats recovers the field name and the file name exactly; and that
  value, with both strings escaped, is what a successful \<open>createFormFile\<close> writes as the
  part's \<open>Content-Disposition\<close> header line.
\<close>

theorem content_disposition_round_trip:
  "escapeQuotes s =
     concat (map (\<lambda>c. if c = backslash then [backslash, backslash]
                       else if c = dquote then [backslash, dquote] else [c]) s) \<and>
   unescapeQuotes (escapeQuotes s) = s \<and>
   (escapeQuotes s = escapeQuotes t) = (s = t) \<and>
   parseDisposition (formFileDisposition fieldname filename) = Some (fieldname, filename) \<and>
   (fst (createFormFile ev m fieldname f filename) = None \<longrightarrow>
      data (mw_w (fst (snd (createFormFile ev m fieldname f filename)))) =
        data (mw_w m) @ (if mw_lastpart m \<noteq> None then CRLF else []) @
        ''--'' @ mw_boundary m @ CRLF @
        ''Content-Disposition: form-data; name='' @ [dquote] @ escapeQuotes fieldname @ [dquote] @
          ''; filename='' @ [dquote] @ escapeQuotes filename @ [dquote] @ CRLF @
        ''Content-Type: '' @ DetectContentType ev (sniffed f) @ CRLF @ CRLF)"
proof -
  have "data (mw_w (fst (snd (createFormFile ev m fieldname f filename)))) =
        data (mw_w m) @ (if mw_lastpart m \<noteq> None then CRLF else []) @
        ''--'' @ mw_boundary m @ CRLF @
        ''Content-Disposition: form-data; name='' @ [dquote] @ escapeQuotes fieldname @ [dquote] @
          ''; filename='' @ [dquote] @ escapeQuotes filename @ [dquote] @ CRLF @
        ''Content-Type: '' @ DetectContentType ev (sniffed f) @ CRLF @ CRLF"
    if "fst (createFormFile ev m fieldname f filename) = None"
  proof -
    from that obtain m1 f1 where F: "createFormFile ev m fieldname f filename = (None, m1, f1)"
      by (metis fst_conv prod.exhaust)
    from createFormFile_ok(3) [OF F] show ?thesis
      by (simp add: F formFileDisposition_def)
  qed
  then show ?thesis
    using escapeQuotes_concat [of s] unescape_escape [of s] escapeQuotes_inj [of s t]
      parseDisposition_formFile [of fieldname filename]
    by blast
qed

text \<open>
  A file name with a double quote and a backslash in it.
\<close>

theorem content_disposition_round_trip_witness:
  "(let fn = ''a'' @ [dquote] @ ''b'' @ [backslash] @ ''c.png'';
        m = NewWriter \<lparr>data = [], wfaults = []\<rparr> ''b0unDary''
    in fst (createFormFile testEnv m ''file'' testFile fn) = None \<and>
       data (mw_w (fst (snd (createFormFile testEnv m ''file'' testFile fn)))) =
         ''--b0unDary'' @ CRLF @
         ''Content-Disposition: form-data; name='' @ [dquote] @ ''file'' @ [dquote] @
           ''; filename='' @ [dquote] @
           ''a'' @ [backslash, dquote] @ ''b'' @ [backslash, backslash] @ ''c.png'' @ [dquote] @ CRLF @
         ''Content-Type: application/octet-stream'' @ CRLF @ CRLF \<and>
       parseDisposition (formFileDisposition ''file'' fn) = Some (''file'', fn))"
proof -
  let ?fn = "''a'' @ [dquote] @ ''b'' @ [backslash] @ ''c.png''"
  let ?m = "NewWriter \<lparr>data = [], wfaults = []\<rparr> ''b0unDary''"
  have f: "rfaults testFile = []" "sfaults testFile = []" "pos testFile < length (content testFile)"
    by (simp_all add: testFile_def)
  note S = createFormFile_succeeds_fst(1) [OF f healthy_NewWriter [of "[]" "''b0unDary''"],
      where ev = testEnv and fieldname = "''file''" and filename = ?fn]
  have esc: "escapeQuotes ''file'' = ''file''"
    "escapeQuotes ?fn = ''a'' @ [backslash, dquote] @ ''b'' @ [backslash, backslash] @ ''c.png''"
    by (simp_all add: escapeQuotes_Cons escapeQuotes_Nil)
  from content_disposition_round_trip [of _ _ "''file''" ?fn testEnv ?m testFile]
  have "parseDisposition (formFileDisposition ''file'' ?fn) = Some (''file'', ?fn)"
    and "fst (createFormFile testEnv ?m ''file'' testFile ?fn) = None \<longrightarrow>
      data (mw_w (fst (snd (createFormFile testEnv ?m ''file'' testFile ?fn)))) =
        data (mw_w ?m) @ (if mw_lastpart ?m \<noteq> None then CRLF else []) @
        ''--'' @ mw_boundary ?m @ CRLF @
        ''Content-Disposition: form-data; name='' @ [dquote] @ escapeQuotes ''file'' @ [dquote] @
          ''; filename='' @ [dquote] @ escapeQuotes ?fn @ [dquote] @ CRLF @
        ''Content-Type: '' @ DetectContentType testEnv (sniffed testFile) @ CRLF @ CRLF"
    by blast+
  with S show ?thesis
    unfolding Let_def esc
    by (simp add: NewWriter_def testEnv_def octetStream_def)
qed

section \<open>Failures of the encoding and of the request construction\<close>

lemma read_fault_aborts:
  assumes "rfaults (File dr) = Some msg # rest"
  shows "fst (uploadBody ev dr filename) = Some (IOError msg)"
  using assms
  by (simp add: uploadBody_def createFormFile_def Read_def Let_def)

lemma seek_fault_aborts:
  assumes "rfaults (File dr) = []" and "pos (File dr) < length (content (File dr))"
    and "sfaults (File dr) = Some msg # rest"
  shows "fst (uploadBody ev dr filename) = Some (IOError msg)"
  using assms
  by (simp add: uploadBody_def createFormFile_def Read_def Seek_def Let_def)

lemma write_fault_aborts:
  assumes "rfaults (File dr) = []" and "pos (File dr) < length (content (File dr))"
    and "sfaults (File dr) = []" and "bufferFaults ev = Some msg # rest"
  shows "fst (uploadBody ev dr filename) = Some (IOError msg)"
  using assms
  by (simp add: uploadBody_def createFormFile_def Read_def Seek_def Let_def CreatePart_def
      NewWriter_def sinkWrite_def)

lemma chunks_0: "chunks 0 = 0"
  by (simp add: chunks_def)

lemma chunks_step: "0 < r \<Longrightarrow> chunks r = Suc (chunks (r - min r 32768))"
  unfolding chunks_def min_def by (cases "r \<le> 32768") simp_all

lemma noFault_0: "noFault 0 xs"
  by (simp add: noFault_def)

lemma noFault_Suc:
  "noFault (Suc k) xs = ((case xs of Some e # _ \<Rightarrow> False | _ \<Rightarrow> True) \<and> noFault k (tl xs))"
  by (cases xs) (auto simp: noFault_def split: option.splits)

lemma noFault_1: "noFault (Suc 0) xs = (case xs of Some e # _ \<Rightarrow> False | _ \<Rightarrow> True)"
  by (simp add: noFault_Suc noFault_0)

lemma noFault_add: "noFault (a + b) xs = (noFault a xs \<and> noFault b (drop a xs))"
  by (simp add: noFault_def take_add)

lemma noFault_Suc_drop: "noFault (Suc k) xs = (noFault 1 xs \<and> noFault k (tl xs))"
  by (simp add: noFault_Suc noFault_1 noFault_0)

lemma scripted_tl: "scripted (tl xs) e \<Longrightarrow> scripted xs e"
  by (cases xs) (auto simp: scripted_def split: error.splits)

lemma scripted_drop: "scripted (drop k xs) e \<Longrightarrow> scripted xs e"
  by (auto simp: scripted_def split: error.splits dest: in_set_dropD)

lemma scripted_head: "\<not> noFault 1 xs \<Longrightarrow> \<exists>msg rest. xs = Some msg # rest \<and> scripted xs (IOError msg)"
  by (auto simp: noFault_1 scripted_def split: list.splits option.splits)

lemma sinkWrite_clean:
  "noFault 1 (wfaults k) \<Longrightarrow>
   sinkWrite k d = ((length d, None), k\<lparr>data := data k @ d, wfaults := tl (wfaults k)\<rparr>)"
  by (auto simp: noFault_1 sinkWrite_def split: list.splits option.splits)

lemma sinkWrite_fault:
  "\<not> noFault 1 (wfaults k) \<Longrightarrow>
   \<exists>e. scripted (wfaults k) e \<and>
     (\<forall>d. sinkWrite k d = ((0, Some e), k\<lparr>wfaults := tl (wfaults k)\<rparr>))"
  by (auto simp: noFault_1 sinkWrite_def scripted_def split: list.splits option.splits)

lemma Read_clean:
  "noFault 1 (rfaults f) \<Longrightarrow> pos f < length (content f) \<Longrightarrow>
   Read f n = ((take n (drop (pos f) (content f)), None),
               f\<lparr>rfaults := tl (rfaults f),
                 pos := pos f + length (take n (drop (pos f) (content f)))\<rparr>)"
  by (auto simp: noFault_1 Read_def Let_def split: list.splits option.splits)

lemma Read_clean_EOF:
  "noFault 1 (rfaults f) \<Longrightarrow> length (content f) \<le> pos f \<Longrightarrow>
   Read f n = (([], Some EOF), f\<lparr>rfaults := tl (rfaults f)\<rparr>)"
  by (auto simp: noFault_1 Read_def Let_def split: list.splits option.splits)

lemma Read_fault:
  "\<not> noFault 1 (rfaults f) \<Longrightarrow>
   \<exists>msg. scripted (rfaults f) (IOError msg) \<and>
     Read f n = (([], Some (IOError msg)), f\<lparr>rfaults := tl (rfaults f)\<rparr>)"
  by (auto simp: noFault_1 Read_def Let_def scripted_def split: list.splits option.splits)

lemma Seek_start_clean:
  "noFault 1 (sfaults f) \<Longrightarrow>
   Seek f 0 0 = ((0, None), f\<lparr>sfaults := tl (sfaults f), pos := 0\<rparr>)"
  by (auto simp: noFault_1 Seek_def Let_def split: list.splits option.splits)

lemma Seek_fault:
  "\<not> noFault 1 (sfaults f) \<Longrightarrow>
   \<exists>e. scripted (sfaults f) e \<and>
     Seek f offset whence = ((0, Some e), f\<lparr>sfaults := tl (sfaults f)\<rparr>)"
  by (auto simp: noFault_1 Seek_def Let_def scripted_def split: list.splits option.splits)


lemma noFault_Suc1: "noFault (Suc k) xs = (noFault 1 xs \<and> noFault k (tl xs))"
  by (rule noFault_Suc_drop)

lemma partsOpen_we: "partsOpen m \<Longrightarrow> (case mw_lastpart m of None \<Rightarrow> None | Some p \<Rightarrow> we p) = None"
  by (simp add: partsOpen_def split: option.splits)

lemma CreatePart_clean:
  assumes "partsOpen m" and "noFault 1 (wfaults (mw_w m))"
  shows "\<exists>m'. CreatePart m h = (None, m') \<and> partsOpen m' \<and> mw_lastpart m' \<noteq> None \<and>
           wfaults (mw_w m') = tl (wfaults (mw_w m))"
  by (simp add: CreatePart_def Let_def partsOpen_we [OF assms(1)] sinkWrite_clean [OF assms(2)]
      partsOpen_def)

lemma CreatePart_fault:
  assumes "partsOpen m" and "\<not> noFault 1 (wfaults (mw_w m))"
  shows "\<exists>e m'. CreatePart m h = (Some e, m') \<and> scripted (wfaults (mw_w m)) e"
proof -
  from sinkWrite_fault [OF assms(2)] obtain e where
    e: "scripted (wfaults (mw_w m)) e" and
    W: "\<And>d. sinkWrite (mw_w m) d = ((0, Some e), (mw_w m)\<lparr>wfaults := tl (wfaults (mw_w m))\<rparr>)"
    by blast
  show ?thesis
    using e by (simp add: CreatePart_def Let_def partsOpen_we [OF assms(1)] W)
qed

lemma partWrite_clean:
  assumes "partsOpen m" and "mw_lastpart m \<noteq> None" and "noFault 1 (wfaults (mw_w m))"
  shows "\<exists>m'. partWrite m d = ((length d, None), m') \<and> partsOpen m' \<and>
           mw_lastpart m' \<noteq> None \<and> wfaults (mw_w m') = tl (wfaults (mw_w m))"
  using assms(1,2)
  by (auto simp: partWrite_def partsOpen_def sinkWrite_clean [OF assms(3)] split: option.splits)

lemma partWrite_fault:
  assumes "partsOpen m" and "mw_lastpart m \<noteq> None" and "\<not> noFault 1 (wfaults (mw_w m))"
  shows "\<exists>n e m'. partWrite m d = ((n, Some e), m') \<and> scripted (wfaults (mw_w m)) e"
proof -
  from sinkWrite_fault [OF assms(3)] obtain e where
    e: "scripted (wfaults (mw_w m)) e" and
    W: "sinkWrite (mw_w m) d = ((0, Some e), (mw_w m)\<lparr>wfaults := tl (wfaults (mw_w m))\<rparr>)"
    by blast
  show ?thesis
    using e assms(1,2)
    by (auto simp: partWrite_def partsOpen_def W split: option.splits)
qed

lemma copyBuffer_result:
  "partsOpen dst \<Longrightarrow> mw_lastpart dst \<noteq> None \<Longrightarrow>
   (noFault (chunks (length (content src) - pos src) + 1) (rfaults src) \<and>
    noFault (chunks (length (content src) - pos src)) (wfaults (mw_w dst)) \<and>
    (\<exists>n dst' src'. copyBuffer dst src wr = ((n, None), dst', src') \<and> partsOpen dst' \<and>
        mw_lastpart dst' \<noteq> None \<and>
        wfaults (mw_w dst') = drop (chunks (length (content src) - pos src)) (wfaults (mw_w dst))))
   \<or>
   (\<not> (noFault (chunks (length (content src) - pos src) + 1) (rfaults src) \<and>
       noFault (chunks (length (content src) - pos src)) (wfaults (mw_w dst))) \<and>
    (\<exists>n e dst' src'. copyBuffer dst src wr = ((n, Some e), dst', src') \<and>
        (scripted (rfaults src) e \<or> scripted (wfaults (mw_w dst)) e)))"
proof (induction dst src wr rule: copyBuffer.induct)
  case (1 dst src written)
  let ?rem = "length (content src) - pos src"
  show ?case
  proof (cases "noFault 1 (rfaults src)")
    case False
    from Read_fault [OF False, of 32768] obtain msg where
      sc: "scripted (rfaults src) (IOError msg)" and
      R: "Read src 32768 = (([], Some (IOError msg)), src\<lparr>rfaults := tl (rfaults src)\<rparr>)"
      by blast
    have nc: "\<not> noFault (chunks ?rem + 1) (rfaults src)"
      using False by (simp add: noFault_Suc noFault_0)
    have "copyBuffer dst src written
            = ((written, Some (IOError msg)), dst, src\<lparr>rfaults := tl (rfaults src)\<rparr>)"
      by (simp add: copyBuffer.simps [of dst src written] R)
    with sc nc show ?thesis
      by blast
  next
    case True
    note r1 = this
    show ?thesis
    proof (cases "pos src < length (content src)")
      case False
      then have R: "Read src 32768 = (([], Some EOF), src\<lparr>rfaults := tl (rfaults src)\<rparr>)"
        using r1 by (simp add: Read_clean_EOF)
      from False have rem: "?rem = 0"
        by simp
      have cb: "copyBuffer dst src written = ((written, None), dst, src\<lparr>rfaults := tl (rfaults src)\<rparr>)"
        by (simp add: copyBuffer.simps [of dst src written] R)
      have "noFault (chunks ?rem + 1) (rfaults src)" "noFault (chunks ?rem) (wfaults (mw_w dst))"
        using r1 by (simp_all add: rem chunks_0 noFault_0)
      moreover have "wfaults (mw_w dst) = drop (chunks ?rem) (wfaults (mw_w dst))"
        by (simp add: rem chunks_0)
      ultimately show ?thesis
        using cb "1.prems" by blast
    next
      case True
      note inb = this
      define d where "d = take 32768 (drop (pos src) (content src))"
      define s1 where "s1 = src\<lparr>rfaults := tl (rfaults src), pos := pos src + length d\<rparr>"
      have R: "Read src 32768 = ((d, None), s1)"
        using r1 inb by (simp add: Read_clean d_def s1_def)
      have dne: "d \<noteq> []"
        using Read_nonempty [OF R] by simp
      have ld: "length d = min ?rem 32768"
        by (simp add: d_def)
      have rem': "length (content s1) - pos s1 = ?rem - min ?rem 32768"
        by (simp add: s1_def ld)
      have ch: "chunks ?rem = Suc (chunks (length (content s1) - pos s1))"
        using chunks_step [of ?rem] inb rem' by simp
      show ?thesis
      proof (cases "noFault 1 (wfaults (mw_w dst))")
        case False
        from partWrite_fault [OF "1.prems" False, of d] obtain n e d1 where
          W: "partWrite dst d = ((n, Some e), d1)" and sc: "scripted (wfaults (mw_w dst)) e"
          by blast
        have nc: "\<not> noFault (chunks ?rem) (wfaults (mw_w dst))"
          using False by (simp add: ch noFault_Suc noFault_0)
        have "copyBuffer dst src written = ((written + n, Some e), d1, s1)"
          using dne by (simp add: copyBuffer.simps [of dst src written] R W)
        with sc nc show ?thesis
          by blast
      next
        case True
        note w1 = this
        from partWrite_clean [OF "1.prems" w1, of d] obtain d1 where
          W: "partWrite dst d = ((length d, None), d1)" and o1: "partsOpen d1"
          and l1: "mw_lastpart d1 \<noteq> None" and wf1: "wfaults (mw_w d1) = tl (wfaults (mw_w dst))"
          by blast
        have rf1: "rfaults s1 = tl (rfaults src)"
          by (simp add: s1_def)
        have rec: "copyBuffer dst src written = copyBuffer d1 s1 (written + length d)"
          using dne by (simp add: copyBuffer.simps [of dst src written] R W)
        note IH = "1.IH"(1) [OF R [symmetric] refl dne W [symmetric] refl refl _ refl o1 l1]
        have cr: "noFault (chunks ?rem + 1) (rfaults src)
                   = noFault (chunks (length (content s1) - pos s1) + 1) (rfaults s1)"
          using r1 by (simp add: ch rf1 noFault_Suc noFault_0)
        have cw: "noFault (chunks ?rem) (wfaults (mw_w dst))
                   = noFault (chunks (length (content s1) - pos s1)) (wfaults (mw_w d1))"
          using w1 by (simp add: ch wf1 noFault_Suc noFault_0)
        have dr: "drop (chunks ?rem) (wfaults (mw_w dst))
                   = drop (chunks (length (content s1) - pos s1)) (wfaults (mw_w d1))"
          by (simp add: ch wf1 drop_Suc)
        have sr: "scripted (rfaults s1) e \<Longrightarrow> scripted (rfaults src) e" for e
          unfolding rf1 by (rule scripted_tl)
        have sw: "scripted (wfaults (mw_w d1)) e \<Longrightarrow> scripted (wfaults (mw_w dst)) e" for e
          unfolding wf1 by (rule scripted_tl)
        from IH show ?thesis
          unfolding rec cr cw dr using sr sw by blast
      qed
    qed
  qed
qed


lemma tl_drop_1: "tl xs = drop 1 xs"
  by (cases xs) simp_all

lemma noFault_2: "noFault 2 xs = (noFault 1 xs \<and> noFault 1 (tl xs))"
  by (simp add: numeral_2_eq_2 noFault_Suc noFault_0)

lemma WriteField_result:
  assumes "partsOpen m"
  shows "(noFault 2 (wfaults (mw_w m)) \<and>
          (\<exists>m'. WriteField m fieldname val = (None, m') \<and> partsOpen m' \<and>
             mw_lastpart m' \<noteq> None \<and> wfaults (mw_w m') = drop 2 (wfaults (mw_w m))))
         \<or>
         (\<not> noFault 2 (wfaults (mw_w m)) \<and>
          (\<exists>e m'. WriteField m fieldname val = (Some e, m') \<and> scripted (wfaults (mw_w m)) e))"
proof (cases "noFault 1 (wfaults (mw_w m))")
  case False
  from CreatePart_fault [OF assms False] obtain e m' where
    "CreateFormField m fieldname = (Some e, m')" and "scripted (wfaults (mw_w m)) e"
    unfolding CreateFormField_def by blast
  with False show ?thesis
    by (simp add: WriteField_def noFault_2)
next
  case True
  from CreatePart_clean [OF assms True] obtain m1 where
    C: "CreateFormField m fieldname = (None, m1)" and o1: "partsOpen m1"
    and l1: "mw_lastpart m1 \<noteq> None" and w1: "wfaults (mw_w m1) = tl (wfaults (mw_w m))"
    unfolding CreateFormField_def by blast
  show ?thesis
  proof (cases "noFault 1 (tl (wfaults (mw_w m)))")
    case False
    then have "\<not> noFault 1 (wfaults (mw_w m1))"
      by (simp add: w1)
    from partWrite_fault [OF o1 l1 this, of val] obtain n e m2 where
      "partWrite m1 val = ((n, Some e), m2)" and "scripted (wfaults (mw_w m1)) e"
      by blast
    with False C show ?thesis
      by (auto simp: WriteField_def noFault_2 w1 dest: scripted_tl)
  next
    case True
    then have "noFault 1 (wfaults (mw_w m1))"
      by (simp add: w1)
    from partWrite_clean [OF o1 l1 this, of val] obtain m2 where
      "partWrite m1 val = ((length val, None), m2)" and "partsOpen m2"
      and "mw_lastpart m2 \<noteq> None" and "wfaults (mw_w m2) = tl (wfaults (mw_w m1))"
      by blast
    with True \<open>noFault 1 (wfaults (mw_w m))\<close> C show ?thesis
      by (simp add: WriteField_def w1 numeral_2_eq_2 drop_Suc noFault_Suc noFault_0)
  qed
qed

lemma Close_result:
  assumes "partsOpen m"
  shows "(noFault 1 (wfaults (mw_w m)) \<and> (\<exists>m'. Close m = (None, m')))
         \<or>
         (\<not> noFault 1 (wfaults (mw_w m)) \<and>
          (\<exists>e m'. Close m = (Some e, m') \<and> scripted (wfaults (mw_w m)) e))"
proof (cases "noFault 1 (wfaults (mw_w m))")
  case True
  then show ?thesis
    by (simp add: Close_def partsOpen_we [OF assms] sinkWrite_clean)
next
  case False
  from sinkWrite_fault [OF False] obtain e where
    e: "scripted (wfaults (mw_w m)) e" and
    W: "\<And>d. sinkWrite (mw_w m) d = ((0, Some e), (mw_w m)\<lparr>wfaults := tl (wfaults (mw_w m))\<rparr>)"
    by blast
  with False show ?thesis
    by (simp add: Close_def partsOpen_we [OF assms])
qed

lemma createFormFile_result:
  assumes "partsOpen m"
  shows "(noFault 1 (rfaults f) \<and> pos f < length (content f) \<and> noFault 1 (sfaults f) \<and>
          noFault 1 (wfaults (mw_w m)) \<and>
          (\<exists>m' f'. createFormFile ev m fieldname f filename = (None, m', f') \<and> partsOpen m' \<and>
             mw_lastpart m' \<noteq> None \<and> wfaults (mw_w m') = drop 1 (wfaults (mw_w m)) \<and>
             rfaults f' = drop 1 (rfaults f) \<and> pos f' = 0 \<and> content f' = content f))
         \<or>
         (\<not> (noFault 1 (rfaults f) \<and> pos f < length (content f) \<and> noFault 1 (sfaults f) \<and>
             noFault 1 (wfaults (mw_w m))) \<and>
          (\<exists>e m' f'. createFormFile ev m fieldname f filename = (Some e, m', f') \<and>
             ((e = EOF \<and> length (content f) \<le> pos f) \<or> scripted (rfaults f) e \<or>
              scripted (sfaults f) e \<or> scripted (wfaults (mw_w m)) e)))"
proof (cases "noFault 1 (rfaults f)")
  case False
  from Read_fault [OF False, of 512] obtain msg where
    "scripted (rfaults f) (IOError msg)" and
    "Read f 512 = (([], Some (IOError msg)), f\<lparr>rfaults := tl (rfaults f)\<rparr>)"
    by blast
  with False show ?thesis
    by (simp add: createFormFile_def)
next
  case True
  note r = this
  show ?thesis
  proof (cases "pos f < length (content f)")
    case False
    with r have "Read f 512 = (([], Some EOF), f\<lparr>rfaults := tl (rfaults f)\<rparr>)"
      by (simp add: Read_clean_EOF)
    with False show ?thesis
      by (simp add: createFormFile_def)
  next
    case True
    note inb = this
    define d where "d = take 512 (drop (pos f) (content f))"
    define f1 where "f1 = f\<lparr>rfaults := tl (rfaults f), pos := pos f + length d\<rparr>"
    have R: "Read f 512 = ((d, None), f1)"
      using r inb by (simp add: Read_clean d_def f1_def)
    have s1: "sfaults f1 = sfaults f"
      by (simp add: f1_def)
    show ?thesis
    proof (cases "noFault 1 (sfaults f)")
      case False
      then have "\<not> noFault 1 (sfaults f1)"
        by (simp add: s1)
      from Seek_fault [OF this, of 0 0] obtain e where
        "scripted (sfaults f1) e" and
        "Seek f1 0 0 = ((0, Some e), f1\<lparr>sfaults := tl (sfaults f1)\<rparr>)"
        by blast
      with False show ?thesis
        by (auto simp: createFormFile_def R Let_def s1)
    next
      case True
      note sk = this
      define f2 where "f2 = f1\<lparr>sfaults := tl (sfaults f1), pos := 0\<rparr>"
      have S: "Seek f1 0 0 = ((0, None), f2)"
        using sk by (simp add: Seek_start_clean s1 f2_def)
      have f2: "rfaults f2 = drop 1 (rfaults f)" "pos f2 = 0" "content f2 = content f"
        by (simp_all add: f2_def f1_def tl_drop_1)
      let ?h = "hset ''Content-Type'' (DetectContentType ev (d @ replicate (512 - length d) (CHR 0x00)))
                  (hset ''Content-Disposition'' (formFileDisposition fieldname filename) [])"
      have cf: "createFormFile ev m fieldname f filename
                  = (case CreatePart m ?h of (err, writer') \<Rightarrow> (err, writer', f2))"
        by (simp only: createFormFile_def R S Let_def prod.case option.case)
      show ?thesis
      proof (cases "noFault 1 (wfaults (mw_w m))")
        case False
        from CreatePart_fault [OF assms False, of ?h] obtain e m' where
          "CreatePart m ?h = (Some e, m')" and "scripted (wfaults (mw_w m)) e"
          by blast
        with False show ?thesis
          unfolding cf by auto
      next
        case True
        from CreatePart_clean [OF assms True, of ?h] obtain m' where
          "CreatePart m ?h = (None, m')" and "partsOpen m'" and "mw_lastpart m' \<noteq> None"
          and "wfaults (mw_w m') = tl (wfaults (mw_w m))"
          by blast
        with True r inb sk f2 show ?thesis
          unfolding cf by (auto simp: tl_drop_1)
      qed
    qed
  qed
qed


lemma reads_split: "noFault (k + 2) rs = (noFault 1 rs \<and> noFault (k + 1) (drop 1 rs))"
proof -
  have "k + 2 = 1 + (k + 1)" by simp
  then show ?thesis
    by (simp only: noFault_add)
qed

lemma writes_split:
  "noFault (k + 8) ws =
     (noFault 1 ws \<and> noFault k (drop 1 ws) \<and> noFault 2 (drop (k + 1) ws) \<and>
      noFault 2 (drop (k + 3) ws) \<and> noFault 2 (drop (k + 5) ws) \<and>
      noFault 1 (drop (k + 7) ws))"
proof -
  have e: "k + 8 = 1 + (k + (2 + (2 + (2 + 1))))" by simp
  have d: "2 + (k + 1) = k + 3" "2 + (k + 3) = k + 5" "2 + (k + 5) = k + 7"
    by simp_all
  show ?thesis
    unfolding e by (simp only: noFault_add drop_drop d)
qed

lemma uploadBody_result:
  "(faultFree ev dr \<and> fst (uploadBody ev dr filename) = None)
   \<or>
   (\<not> faultFree ev dr \<and>
    (\<exists>e. fst (uploadBody ev dr filename) = Some e \<and>
       ((e = EOF \<and> length (content (File dr)) \<le> pos (File dr)) \<or>
        scripted (rfaults (File dr)) e \<or> scripted (sfaults (File dr)) e \<or>
        scripted (bufferFaults ev) e)))"
proof -
  let ?f = "File dr"
  let ?rf = "rfaults ?f" and ?sf = "sfaults ?f" and ?wf = "bufferFaults ev"
  define k where "k = chunks (length (content ?f))"
  define w0 where "w0 = NewWriter \<lparr>data = [], wfaults = ?wf\<rparr> (randomBoundary ev)"
  have ff: "faultFree ev dr =
      (pos ?f < length (content ?f) \<and>
       (noFault 1 ?rf \<and> noFault (k + 1) (drop 1 ?rf)) \<and> noFault 1 ?sf \<and>
       (noFault 1 ?wf \<and> noFault k (drop 1 ?wf) \<and> noFault 2 (drop (k + 1) ?wf) \<and>
        noFault 2 (drop (k + 3) ?wf) \<and> noFault 2 (drop (k + 5) ?wf) \<and>
        noFault 1 (drop (k + 7) ?wf)))"
    unfolding faultFree_def Let_def k_def [symmetric]
    by (simp only: reads_split writes_split)
  have o0: "partsOpen w0" and wf0: "wfaults (mw_w w0) = ?wf"
    by (simp_all add: w0_def NewWriter_def partsOpen_def)
  have U: "uploadBody ev dr filename =
     (case createFormFile ev w0 ''file'' ?f filename of
           (Some e, w1, f1) \<Rightarrow> (Some e, w1, f1)
         | (None, w1, f1) \<Rightarrow>
             (case Copy w1 f1 of
                ((n, Some e), w2, f2) \<Rightarrow> (Some e, w2, f2)
              | ((n, None), w2, f2) \<Rightarrow>
                  (case WriteField w2 ''type'' (DocumentRequest.Type dr) of
                     (Some e, w3) \<Rightarrow> (Some e, w3, f2)
                   | (None, w3) \<Rightarrow>
                       (case WriteField w3 ''side'' (DocumentRequest.Side dr) of
                          (Some e, w4) \<Rightarrow> (Some e, w4, f2)
                        | (None, w4) \<Rightarrow>
                            (case WriteField w4 ''issuing_country''
                                    (DocumentRequest.IssuingCountry dr) of
                               (Some e, w5) \<Rightarrow> (Some e, w5, f2)
                             | (None, w5) \<Rightarrow>
                                 (case Close w5 of (err, w6) \<Rightarrow> (err, w6, f2)))))))"
    by (simp add: uploadBody_def Let_def w0_def)
  note R1 = createFormFile_result [OF o0, of ?f ev "''file''" filename, unfolded wf0]
  show ?thesis
  proof (cases "noFault 1 ?rf \<and> pos ?f < length (content ?f) \<and> noFault 1 ?sf \<and> noFault 1 ?wf")
    case False
    with R1 obtain e m' f' where
      "createFormFile ev w0 ''file'' ?f filename = (Some e, m', f')"
      and "(e = EOF \<and> length (content ?f) \<le> pos ?f) \<or> scripted ?rf e \<or> scripted ?sf e \<or>
           scripted ?wf e"
      by blast
    with False show ?thesis
      by (auto simp: U ff)
  next
    case True
    note a1 = this
    with R1 obtain w1 f1 where
      F: "createFormFile ev w0 ''file'' ?f filename = (None, w1, f1)"
      and o1: "partsOpen w1" and l1: "mw_lastpart w1 \<noteq> None"
      and wf1: "wfaults (mw_w w1) = drop 1 ?wf"
      and rf1: "rfaults f1 = drop 1 ?rf" and p1: "pos f1 = 0" and c1: "content f1 = content ?f"
      by blast
    have rem: "chunks (length (content f1) - pos f1) = k"
      by (simp add: p1 c1 k_def)
    note R2 = copyBuffer_result [OF o1 l1, of f1 0, unfolded rem wf1 rf1, folded Copy_def]
    show ?thesis
    proof (cases "noFault (k + 1) (drop 1 ?rf) \<and> noFault k (drop 1 ?wf)")
      case False
      with R2 obtain n e dst' src' where
        "Copy w1 f1 = ((n, Some e), dst', src')"
        and "scripted (drop 1 ?rf) e \<or> scripted (drop 1 ?wf) e"
        by blast
      with False show ?thesis
        by (auto simp: U ff F dest: scripted_drop)
    next
      case True
      note a2 = this
      with R2 obtain n w2 f2 where
        C: "Copy w1 f1 = ((n, None), w2, f2)"
        and o2: "partsOpen w2"
        and wf2: "wfaults (mw_w w2) = drop k (drop 1 ?wf)"
        by blast
      have wf2': "wfaults (mw_w w2) = drop (k + 1) ?wf"
        by (simp add: wf2)
      note R3 = WriteField_result [OF o2, of "''type''" "DocumentRequest.Type dr", unfolded wf2']
      show ?thesis
      proof (cases "noFault 2 (drop (k + 1) ?wf)")
        case False
        with R3 obtain e m' where
          "WriteField w2 ''type'' (DocumentRequest.Type dr) = (Some e, m')"
          and "scripted (drop (k + 1) ?wf) e"
          by blast
        with False show ?thesis
          by (auto simp: U ff F C dest: scripted_drop)
      next
        case True
        note a3 = this
        with R3 obtain w3 where
          T: "WriteField w2 ''type'' (DocumentRequest.Type dr) = (None, w3)"
          and o3: "partsOpen w3"
          and wf3: "wfaults (mw_w w3) = drop 2 (drop (k + 1) ?wf)"
          by blast
        have wf3': "wfaults (mw_w w3) = drop (k + 3) ?wf"
          by (simp add: wf3 eval_nat_numeral)
        note R4 = WriteField_result [OF o3, of "''side''" "DocumentRequest.Side dr", unfolded wf3']
        show ?thesis
        proof (cases "noFault 2 (drop (k + 3) ?wf)")
          case False
          with R4 obtain e m' where
            "WriteField w3 ''side'' (DocumentRequest.Side dr) = (Some e, m')"
            and "scripted (drop (k + 3) ?wf) e"
            by blast
          with False show ?thesis
            by (auto simp: U ff F C T dest: scripted_drop)
        next
          case True
          note a4 = this
          with R4 obtain w4 where
            S: "WriteField w3 ''side'' (DocumentRequest.Side dr) = (None, w4)"
            and o4: "partsOpen w4"
            and wf4: "wfaults (mw_w w4) = drop 2 (drop (k + 3) ?wf)"
            by blast
          have wf4': "wfaults (mw_w w4) = drop (k + 5) ?wf"
            by (simp add: wf4 eval_nat_numeral)
          note R5 = WriteField_result [OF o4, of "''issuing_country''"
              "DocumentRequest.IssuingCountry dr", unfolded wf4']
          show ?thesis
          proof (cases "noFault 2 (drop (k + 5) ?wf)")
            case False
            with R5 obtain e m' where
              "WriteField w4 ''issuing_country'' (DocumentRequest.IssuingCountry dr) = (Some e, m')"
              and "scripted (drop (k + 5) ?wf) e"
              by blast
            with False show ?thesis
              by (auto simp: U ff F C T S dest: scripted_drop)
          next
            case True
            note a5 = this
            with R5 obtain w5 where
              I: "WriteField w4 ''issuing_country'' (DocumentRequest.IssuingCountry dr) = (None, w5)"
              and o5: "partsOpen w5"
              and wf5: "wfaults (mw_w w5) = drop 2 (drop (k + 5) ?wf)"
              by blast
            have wf5': "wfaults (mw_w w5) = drop (k + 7) ?wf"
              by (simp add: wf5 eval_nat_numeral)
            note R6 = Close_result [OF o5, unfolded wf5']
            show ?thesis
            proof (cases "noFault 1 (drop (k + 7) ?wf)")
              case False
              with R6 obtain e m' where
                "Close w5 = (Some e, m')" and "scripted (drop (k + 7) ?wf) e"
                by blast
              with False show ?thesis
                by (auto simp: U ff F C T S I dest: scripted_drop)
            next
              case True
              note a6 = this
              with R6 obtain w6 where Z: "Close w5 = (None, w6)"
                by blast
              have "faultFree ev dr"
                unfolding ff using a1 a2 a3 a4 a5 a6 by blast
              then show ?thesis
                by (simp add: U F C T S I Z)
            qed
          qed
        qed
      qed
    qed
  qed
qed

text \<open>
  C8. The encoding of an upload succeeds exactly when the stream has bytes left to read
  and no step that the encoder executes meets a fault: no read of the stream (in the
  sniffing or in the copy loop), not the seek, and no write of the multipart writer (in
  the file part, in the copy loop, in a form field or in the closing delimiter).
  Otherwise the encoding fails, with the error of a fault of the stream or of the
  buffer, or with \<open>io.EOF\<close> when the stream had nothing left to read, and
  \<open>UploadDocument\<close> returns a nil document with that error and leaves the network as it
  was: no method of the client is called, whatever the client is.
\<close>

theorem encoding_failure_issues_no_request:
  "(fst (uploadBody ev dr filename) = None) = faultFree ev dr \<and>
   (\<not> faultFree ev dr \<longrightarrow>
      (\<exists>e. fst (uploadBody ev dr filename) = Some e \<and>
           ((e = EOF \<and> length (content (File dr)) \<le> pos (File dr)) \<or>
            scripted (rfaults (File dr)) e \<or> scripted (sfaults (File dr)) e \<or>
            scripted (bufferFaults ev) e) \<and>
           UploadDocument c ev applicantID dr filename net = (Return (None, Some e), net))) \<and>
   (fst (uploadBody ev dr filename) = Some e' \<longrightarrow>
      UploadDocument c ev applicantID dr filename net = (Return (None, Some e'), net))"
proof -
  have ret: "UploadDocument c ev applicantID dr filename net = (Return (None, Some x), net)"
    if "fst (uploadBody ev dr filename) = Some x" for x
    using that by (auto simp: UploadDocument_def split: prod.splits option.splits)
  from uploadBody_result [of ev dr filename] ret show ?thesis
    by (elim disjE conjE exE) auto
qed

text \<open>
  A stream whose read fails inside the copy loop, after the sniffing has succeeded: the
  upload returns the read's error and the list of requests issued stays empty.
\<close>

theorem encoding_failure_issues_no_request_witness:
  "(let net = \<lparr>server = helloServer, sent = []\<rparr>
    in \<not> faultFree testEnv brokenCopyRequest \<and>
       fst (uploadBody testEnv brokenCopyRequest ''test.png'') = Some (IOError ''disk'') \<and>
       UploadDocument (spec_client ''https://api'' id testDecode id) testEnv ''a1''
           brokenCopyRequest ''test.png'' net
         = (Return (None, Some (IOError ''disk'')), net))"
proof -
  let ?net = "\<lparr>server = helloServer, sent = []\<rparr>"
  have f: "rfaults (File brokenCopyRequest) = [None, Some ''disk'']"
    "sfaults (File brokenCopyRequest) = []" "bufferFaults testEnv = []"
    "length (content (File brokenCopyRequest)) = 4" "pos (File brokenCopyRequest) = 0"
    by (simp_all add: brokenCopyRequest_def testRequest_def testFile_def testEnv_def)
  have nf: "\<not> faultFree testEnv brokenCopyRequest"
    by (simp add: faultFree_def Let_def f chunks_def noFault_def)
  from encoding_failure_issues_no_request
    [of testEnv brokenCopyRequest "''test.png''"
        "spec_client ''https://api'' id testDecode id" "''a1''" ?net] nf
  obtain e where e: "fst (uploadBody testEnv brokenCopyRequest ''test.png'') = Some e"
    and pr: "(e = EOF \<and> length (content (File brokenCopyRequest)) \<le> pos (File brokenCopyRequest))
             \<or> scripted (rfaults (File brokenCopyRequest)) e
             \<or> scripted (sfaults (File brokenCopyRequest)) e
             \<or> scripted (bufferFaults testEnv) e"
    and up: "UploadDocument (spec_client ''https://api'' id testDecode id) testEnv ''a1''
               brokenCopyRequest ''test.png'' ?net = (Return (None, Some e), ?net)"
    by blast
  from pr have "e = IOError ''disk''"
    by (auto simp: f scripted_def split: error.splits)
  with e up nf show ?thesis
    by (simp add: Let_def)
qed

text \<open>
  C10. When the encoding has succeeded and \<open>newRequest\<close> returns a nil request, with
  whatever error, \<open>UploadDocument\<close> does not return: setting the header dereferences the
  nil request, before the error is looked at.
\<close>

theorem header_set_before_error_check:
  "fst (uploadBody ev dr filename) = None \<Longrightarrow>
   newRequest c ''POST'' (''/applicants/'' @ applicantID @ ''/documents'')
     (Some (data (mw_w (fst (snd (uploadBody ev dr filename)))))) = (None, err) \<Longrightarrow>
   UploadDocument c ev applicantID dr filename net = (Panic ''nil pointer dereference'', net)"
  by (auto simp: UploadDocument_def split: prod.splits option.splits)

text \<open>
  A client whose \<open>newRequest\<close> fails with an error: the upload panics and the error is
  not returned.
\<close>

theorem header_set_before_error_check_witness:
  "(let c = (spec_client ''https://api'' id testDecode id)
              \<lparr>newRequest := failingNewRequest (RequestError ''invalid URL'')\<rparr>;
        net = \<lparr>server = helloServer, sent = []\<rparr>
    in fst (uploadBody testEnv testRequest ''test.png'') = None \<and>
       newRequest c ''POST'' (''/applicants/'' @ ''a1'' @ ''/documents'')
         (Some (data (mw_w (fst (snd (uploadBody testEnv testRequest ''test.png''))))))
         = (None, Some (RequestError ''invalid URL'')) \<and>
       UploadDocument c testEnv ''a1'' testRequest ''test.png'' net
         = (Panic ''nil pointer dereference'', net))"
proof -
  let ?c = "(spec_client ''https://api'' id testDecode id)
              \<lparr>newRequest := failingNewRequest (RequestError ''invalid URL'')\<rparr>"
  have enc: "fst (uploadBody testEnv testRequest ''test.png'') = None"
    by (rule uploadBody_succeeds) (simp_all add: testEnv_def testRequest_def testFile_def)
  have nr: "newRequest ?c ''POST'' (''/applicants/'' @ ''a1'' @ ''/documents'')
         (Some (data (mw_w (fst (snd (uploadBody testEnv testRequest ''test.png''))))))
         = (None, Some (RequestError ''invalid URL''))"
    by (simp add: failingNewRequest_def)
  show ?thesis
    using enc nr header_set_before_error_check [OF enc nr, of "\<lparr>server = helloServer, sent = []\<rparr>"]
    by (simp only: Let_def)
qed

section \<open>The list iterator on its first page\<close>

lemma spec_client_sel:
  "newRequest (spec_client endpoint errmsg decode blobOf) = spec_newRequest endpoint"
  "do (spec_client endpoint errmsg decode blobOf) = spec_do errmsg decode"
  "download (spec_client endpoint errmsg decode blobOf) = spec_download errmsg blobOf"
  "fetchPage (spec_client endpoint errmsg decode blobOf) = spec_fetchPage endpoint errmsg"
  by (simp_all add: spec_client_def)

lemma ListDocuments_sel:
  "cli (ListDocuments unmarshal c a) = c"
  "nextURL (ListDocuments unmarshal c a) = ''/applicants/'' @ a @ ''/documents''"
  "handler (ListDocuments unmarshal c a) = documentsHandler unmarshal"
  "pageItems (ListDocuments unmarshal c a) = []"
  "pageIndex (ListDocuments unmarshal c a) = 0"
  "lastErr (ListDocuments unmarshal c a) = None"
  by (simp_all add: ListDocuments_def)

lemma Next_failed: "lastErr it = Some e \<Longrightarrow> Next it n = ((False, it), n)"
  by (simp add: Next_def)

lemma Next_first_fetch_fails:
  assumes "fetchPage c (''/applicants/'' @ a @ ''/documents'') n = (Inl e, n')"
  shows "Next (ListDocuments unmarshal c a) n
           = ((False, (ListDocuments unmarshal c a)\<lparr>lastErr := Some e\<rparr>), n')"
  using assms by (simp add: Next_def ListDocuments_sel)

lemma Next_first_decode_fails:
  assumes "fetchPage c (''/applicants/'' @ a @ ''/documents'') n = (Inr (p, l), n')"
    and "unmarshal p = Inl e"
  shows "Next (ListDocuments unmarshal c a) n
           = ((False, (ListDocuments unmarshal c a)\<lparr>lastErr := Some e\<rparr>), n')"
  using assms by (simp add: Next_def ListDocuments_sel documentsHandler_def)

text \<open>
  C5. If the fetch of the first page fails, or the page is fetched and its decoding
  fails, the first \<open>Next\<close> of the iterator that \<open>ListDocuments\<close> builds returns false and
  records the error, \<open>Err\<close> returns that error afterwards, and the iterator stays failed:
  the next \<open>Next\<close> returns false and changes nothing.
\<close>

theorem first_page_failure_fails_iterator:
  "fetchPage c (''/applicants/'' @ a @ ''/documents'') n = (r, n') \<Longrightarrow>
   r = Inl e \<or> (\<exists>p l. r = Inr (p, l) \<and> unmarshal p = Inl e) \<Longrightarrow>
   (let it0 = ListDocuments unmarshal c a; it1 = snd (fst (Next it0 n))
    in fst (fst (Next it0 n)) = False \<and> snd (Next it0 n) = n' \<and>
       it1 = it0\<lparr>lastErr := Some e\<rparr> \<and> Err it1 = Some e \<and>
       Next it1 n' = ((False, it1), n'))"
proof -
  assume F: "fetchPage c (''/applicants/'' @ a @ ''/documents'') n = (r, n')"
    and R: "r = Inl e \<or> (\<exists>p l. r = Inr (p, l) \<and> unmarshal p = Inl e)"
  have N: "Next (ListDocuments unmarshal c a) n
             = ((False, (ListDocuments unmarshal c a)\<lparr>lastErr := Some e\<rparr>), n')"
  proof (cases r)
    case (Inl e')
    with R have "r = Inl e" by auto
    with F show ?thesis by (simp add: Next_first_fetch_fails)
  next
    case (Inr pl)
    with R obtain p l where "r = Inr (p, l)" and "unmarshal p = Inl e" by auto
    with F show ?thesis by (simp add: Next_first_decode_fails)
  qed
  show ?thesis
    by (simp add: N Let_def Err_def Next_failed)
qed


lemma send_answer:
  "server n r = a \<Longrightarrow> send r n = (a, n\<lparr>sent := sent n @ [r]\<rparr>)"
  by (simp add: send_def)

text \<open>
  The service of \<open>TestListDocuments_NonOKResponse\<close>: the first page is answered with
  status 403.
\<close>

theorem first_page_failure_fails_iterator_witness:
  "(let c = spec_client ''https://api'' id testDecode id;
        n = \<lparr>server = forbiddenServer, sent = []\<rparr>;
        n' = \<lparr>server = forbiddenServer,
              sent = [\<lparr>Method = ''GET'', URL = ''https://api/applicants/a1/documents'',
                       Header = [], RequestBody = None\<rparr>]\<rparr>;
        e = APIError 403 (''{'' @ [dquote] @ ''error'' @ [dquote] @ '': '' @ [dquote] @
                 ''things went bad'' @ [dquote] @ ''}'');
        it0 = ListDocuments testUnmarshal c ''a1''; it1 = snd (fst (Next it0 n))
    in fetchPage c (''/applicants/'' @ ''a1'' @ ''/documents'') n = (Inl e, n') \<and>
       fst (fst (Next it0 n)) = False \<and> snd (Next it0 n) = n' \<and>
       it1 = it0\<lparr>lastErr := Some e\<rparr> \<and> Err it1 = Some e \<and>
       Next it1 n' = ((False, it1), n'))"
proof -
  let ?c = "spec_client ''https://api'' id testDecode id"
  let ?n = "\<lparr>server = forbiddenServer, sent = []\<rparr>"
  let ?n' = "\<lparr>server = forbiddenServer,
              sent = [\<lparr>Method = ''GET'', URL = ''https://api/applicants/a1/documents'',
                       Header = [], RequestBody = None\<rparr>]\<rparr>"
  let ?e = "APIError 403 (''{'' @ [dquote] @ ''error'' @ [dquote] @ '': '' @ [dquote] @
                 ''things went bad'' @ [dquote] @ ''}'')"
  have F: "fetchPage ?c (''/applicants/'' @ ''a1'' @ ''/documents'') ?n = (Inl ?e, ?n')"
    by (simp add: spec_client_sel spec_fetchPage_def send_def forbiddenServer_def is2xx_def)
  have R: "Inl ?e = Inl ?e \<or>
           (\<exists>p l. (Inl ?e :: error + string \<times> string) = Inr (p, l) \<and> testUnmarshal p = Inl ?e)"
    by simp
  note C = first_page_failure_fails_iterator [OF F R, unfolded Let_def]
  show ?thesis
    unfolding Let_def by (rule conjI [OF F C])
qed


text \<open>
  C6. If the first page holds exactly one document and has no next-page link, the first
  \<open>Next\<close> returns true, \<open>Document\<close> then yields that document, the second \<open>Next\<close>
  returns false without issuing a request, and \<open>Err\<close> is none.
\<close>

theorem single_page_single_item:
  "fetchPage c (''/applicants/'' @ a @ ''/documents'') n = (Inr (p, []), n') \<Longrightarrow>
   unmarshal p = Inr \<lparr>Documents = [d]\<rparr> \<Longrightarrow>
   (let it0 = ListDocuments unmarshal c a; it1 = snd (fst (Next it0 n))
    in Next it0 n = ((True, it1), n') \<and>
       Document it1 = Return d \<and>
       Next it1 n' = ((False, it1), n') \<and>
       Err it1 = None)"
proof -
  assume F: "fetchPage c (''/applicants/'' @ a @ ''/documents'') n = (Inr (p, []), n')"
    and U: "unmarshal p = Inr \<lparr>Documents = [d]\<rparr>"
  define it1 where
    "it1 = (ListDocuments unmarshal c a)\<lparr>pageItems := [DocumentPtr d], pageIndex := 0, nextURL := []\<rparr>"
  have N: "Next (ListDocuments unmarshal c a) n = ((True, it1), n')"
    using F U by (simp add: Next_def ListDocuments_sel documentsHandler_def it1_def)
  have sel: "lastErr it1 = None" "pageIndex it1 = 0" "pageItems it1 = [DocumentPtr d]"
    "nextURL it1 = []"
    by (simp_all add: it1_def ListDocuments_sel)
  have D: "Document it1 = Return d"
    by (simp add: Document_def Current_def sel)
  have N2: "Next it1 n' = ((False, it1), n')"
    by (simp add: Next_def sel)
  show ?thesis
    by (simp add: N Let_def D N2 Err_def sel)
qed

text \<open>
  The service of \<open>TestListDocuments_DocumentsRetrieved\<close>: one page with one document.
\<close>

theorem single_page_single_item_witness:
  "(let c = spec_client ''https://api'' id testDecode id;
        n = \<lparr>server = onePageServer, sent = []\<rparr>;
        n' = \<lparr>server = onePageServer,
              sent = [\<lparr>Method = ''GET'', URL = ''https://api/applicants/a1/documents'',
                       Header = [], RequestBody = None\<rparr>]\<rparr>;
        it0 = ListDocuments testUnmarshal c ''a1''; it1 = snd (fst (Next it0 n))
    in (fetchPage c (''/applicants/'' @ ''a1'' @ ''/documents'') n = (Inr (''one document'', []), n') \<and>
        testUnmarshal ''one document'' = Inr \<lparr>Documents = [Some testDocument]\<rparr>) \<and>
       Next it0 n = ((True, it1), n') \<and>
       Document it1 = Return (Some testDocument) \<and>
       Next it1 n' = ((False, it1), n') \<and>
       Err it1 = None)"
proof -
  let ?c = "spec_client ''https://api'' id testDecode id"
  let ?n = "\<lparr>server = onePageServer, sent = []\<rparr>"
  let ?n' = "\<lparr>server = onePageServer,
              sent = [\<lparr>Method = ''GET'', URL = ''https://api/applicants/a1/documents'',
                       Header = [], RequestBody = None\<rparr>]\<rparr>"
  have F: "fetchPage ?c (''/applicants/'' @ ''a1'' @ ''/documents'') ?n
             = (Inr (''one document'', []), ?n')"
    by (simp add: spec_client_sel spec_fetchPage_def send_def onePageServer_def is2xx_def)
  have U: "testUnmarshal ''one document'' = Inr \<lparr>Documents = [Some testDocument]\<rparr>"
    by (simp add: testUnmarshal_def)
  note C = single_page_single_item [where unmarshal = testUnmarshal, OF F U, unfolded Let_def]
  show ?thesis
    unfolding Let_def by (rule conjI [OF conjI [OF F U] C])
qed

section \<open>Downloads\<close>

text \<open>
  Whatever the client is, the blob that \<open>DownloadDocument\<close> returns is built from the
  bytes that \<open>download\<close> hands back: they are its \<open>Content\<close> and their number is its
  \<open>Size\<close>. What the target \<open>resp\<close> receives does not reach the result.
\<close>

lemma DownloadDocument_from_blob:
  assumes "newRequest c ''GET''
             (''/applicants/'' @ a @ ''/documents/'' @ ident @ ''/download'') None = (req, None)"
    and "download c req resp n = ((blob, err), resp', n')"
  shows "DownloadDocument c a ident resp n
           = (Return (Some \<lparr>Size = length blob, Content = blob\<rparr>, err), resp', n')"
  using assms by (simp add: DownloadDocument_def)

section \<open>Responses outside the 2xx range\<close>

text \<open>
  C4. When the service answers with a status outside the 2xx range, each operation
  fails with the API error that carries the status and the decoded message, and nothing
  of the response body reaches the result: an upload whose encoding succeeded and a get
  return the zero \<open>Document\<close> with the error, a download returns an empty blob with the
  error (whatever target it was given), and the first \<open>Next\<close> of a list returns false with the error recorded and no
  item.
\<close>

theorem non_2xx_fails_every_operation:
  "\<forall>r. server n r = Inr resp \<Longrightarrow> \<not> is2xx (StatusCode resp) \<Longrightarrow>
   (let c = spec_client endpoint errmsg decode blobOf;
        e = APIError (StatusCode resp) (errmsg (Body resp));
        it1 = snd (fst (Next (ListDocuments unmarshal c a) n))
    in (fst (uploadBody ev dr filename) = None \<longrightarrow>
          fst (UploadDocument c ev a dr filename n) = Return (Some zeroDocument, Some e)) \<and>
       fst (GetDocument c a ident n) = Return (Some zeroDocument, Some e) \<and>
       fst (DownloadDocument c a ident target n) = Return (Some \<lparr>Size = 0, Content = []\<rparr>, Some e) \<and>
       fst (fst (Next (ListDocuments unmarshal c a) n)) = False \<and>
       Err it1 = Some e \<and> pageItems it1 = [])"
proof -
  assume S: "\<forall>r. server n r = Inr resp" and X: "\<not> is2xx (StatusCode resp)"
  let ?c = "spec_client endpoint errmsg decode blobOf"
  let ?e = "APIError (StatusCode resp) (errmsg (Body resp))"
  have up: "fst (UploadDocument ?c ev a dr filename n) = Return (Some zeroDocument, Some ?e)"
    if "fst (uploadBody ev dr filename) = None"
  proof -
    from that obtain wr f where U: "uploadBody ev dr filename = (None, wr, f)"
      by (metis fst_conv prod.exhaust)
    show ?thesis
      using S X
      by (simp add: UploadDocument_def U spec_client_sel spec_newRequest_def spec_do_def send_def)
  qed
  have get: "fst (GetDocument ?c a ident n) = Return (Some zeroDocument, Some ?e)"
    using S X
    by (simp add: GetDocument_def spec_client_sel spec_newRequest_def spec_do_def send_def)
  have dl: "fst (DownloadDocument ?c a ident target n) = Return (Some \<lparr>Size = 0, Content = []\<rparr>, Some ?e)"
    using S X
    by (simp add: DownloadDocument_def spec_client_sel spec_newRequest_def spec_download_def
        send_def)
  have F: "fetchPage ?c (''/applicants/'' @ a @ ''/documents'') n
             = (Inl ?e, n\<lparr>sent := sent n @
                  [\<lparr>Method = ''GET'', URL = endpoint @ ''/applicants/'' @ a @ ''/documents'',
                    Header = [], RequestBody = None\<rparr>]\<rparr>)"
    using S X by (simp add: spec_client_sel spec_fetchPage_def send_def)
  note N = Next_first_fetch_fails [OF F, of unmarshal]
  show ?thesis
    using up get dl
    by (simp add: Let_def N Err_def ListDocuments_sel)
qed

text \<open>
  The service of the \<open>NonOKResponse\<close> tests: status 403 and an error payload.
\<close>

theorem non_2xx_fails_every_operation_witness:
  "(let n = \<lparr>server = forbiddenServer, sent = []\<rparr>;
        c = spec_client ''https://api'' id testDecode id;
        e = APIError 403 (''{'' @ [dquote] @ ''error'' @ [dquote] @ '': '' @ [dquote] @
                 ''things went bad'' @ [dquote] @ ''}'');
        it1 = snd (fst (Next (ListDocuments testUnmarshal c ''a1'') n))
    in \<not> is2xx 403 \<and>
       fst (uploadBody testEnv testRequest ''test.png'') = None \<and>
       fst (UploadDocument c testEnv ''a1'' testRequest ''test.png'' n)
         = Return (Some zeroDocument, Some e) \<and>
       fst (GetDocument c ''a1'' ''d1'' n) = Return (Some zeroDocument, Some e) \<and>
       fst (DownloadDocument c ''a1'' ''d1'' \<lparr>Size = 0, Content = []\<rparr> n) = Return (Some \<lparr>Size = 0, Content = []\<rparr>, Some e) \<and>
       fst (fst (Next (ListDocuments testUnmarshal c ''a1'') n)) = False \<and>
       Err it1 = Some e \<and> pageItems it1 = [])"
proof -
  let ?resp = "\<lparr>StatusCode = 403,
          Body = ''{'' @ [dquote] @ ''error'' @ [dquote] @ '': '' @ [dquote] @
                 ''things went bad'' @ [dquote] @ ''}'',
          nextLink = []\<rparr>"
  have S: "\<forall>r. server \<lparr>server = forbiddenServer, sent = []\<rparr> r = Inr ?resp"
    by (simp add: forbiddenServer_def)
  have X: "\<not> is2xx (StatusCode ?resp)"
    by (simp add: is2xx_def)
  have enc: "fst (uploadBody testEnv testRequest ''test.png'') = None"
    by (rule uploadBody_succeeds) (simp_all add: testEnv_def testRequest_def testFile_def)
  from non_2xx_fails_every_operation [OF S X, where endpoint = "''https://api''" and errmsg = id
      and decode = testDecode and blobOf = id and unmarshal = testUnmarshal and a = "''a1''"
      and ev = testEnv and dr = testRequest and filename = "''test.png''" and ident = "''d1''"
      and target = "\<lparr>Size = 0, Content = []\<rparr>"] enc X
  show ?thesis
    by (simp add: Let_def)
qed

section \<open>The download sink retains the last write only\<close>

text \<open>
  C9. Each call of \<open>DocumentDownload.Write\<close> returns the length of its argument and no
  error, replaces \<open>Content\<close> with the argument and sets \<open>Size\<close> to its length; so after
  any sequence of calls that ends with the slice \<open>bs\<close>, \<open>Content\<close> is \<open>bs\<close> alone,
  whatever was written before, and \<open>Size\<close> is the length of \<open>Content\<close>.
\<close>

theorem Write_keeps_last_only:
  "fst (Write d bs) = (length bs, None) \<and>
   Content (snd (Write d bs)) = bs \<and>
   Size (snd (Write d bs)) = length bs \<and>
   Content (Writes d (bss @ [bs])) = bs \<and>
   Size (Writes d (bss @ [bs])) = length (Content (Writes d (bss @ [bs])))"
  by (simp add: Writes_snoc) (simp add: Write_def)

end
